theory Spec2Isabelle
  imports Main
begin

section \<open>Python values, exceptions and string methods\<close>

text \<open>
  The exceptions that the modelled methods raise or let through. The domain error
  \<open>NVAutomationError\<close> carries the fixed part of its message; the text of the wrapped
  cause (\<open>"... %s" % err\<close>) is left out.
\<close>

datatype exn =
    NVAutomationError string
  | ExpatError
  | IOError
  | TypeError
  | ValueError
  | AttributeError
  | IndexError
  | UnboundLocalError string

text \<open>The values that are passed to the \<open>%\<close> operator or returned where a method has
  no \<open>return\<close> statement.\<close>

datatype pyval = PyNone | PyInt int | PyStr string

text \<open>
  Strings are ASCII text. \<open>isspace\<close> lists the characters that \<open>str.strip()\<close> removes
  in that range; \<open>lower\<close> maps \<open>A-Z\<close> to \<open>a-z\<close>.
\<close>

definition isspace :: "char \<Rightarrow> bool" where
  "isspace c = (c \<in> set [CHR 0x09, CHR 0x0A, CHR 0x0B, CHR 0x0C, CHR 0x0D,
                          CHR 0x1C, CHR 0x1D, CHR 0x1E, CHR 0x1F, CHR 0x20])"

definition strip :: "string \<Rightarrow> string" where
  "strip s = rev (dropWhile isspace (rev (dropWhile isspace s)))"

definition lower_char :: "char \<Rightarrow> char" where
  "lower_char c =
     (case map_of (zip ''ABCDEFGHIJKLMNOPQRSTUVWXYZ'' ''abcdefghijklmnopqrstuvwxyz'') c of
        None \<Rightarrow> c
      | Some l \<Rightarrow> l)"

definition lower :: "string \<Rightarrow> string" where
  "lower s = map lower_char s"

text \<open>
  \<open>int(s)\<close> on a string: surrounding whitespace is dropped, one sign is allowed, and
  the rest must be one or more decimal digits; anything else is Python's \<open>ValueError\<close>,
  here \<open>None\<close>. Underscores between digits, which later Python versions accept, are
  not accepted here. The properties below use \<open>py_int\<close> only through its result.
\<close>

definition digit_val :: "char \<Rightarrow> nat option" where
  "digit_val c = map_of (zip ''0123456789'' [0, 1, 2, 3, 4, 5, 6, 7, 8, 9]) c"

fun digits_val :: "nat \<Rightarrow> string \<Rightarrow> nat option" where
  "digits_val acc [] = Some acc"
| "digits_val acc (c # cs) =
     (case digit_val c of None \<Rightarrow> None | Some d \<Rightarrow> digits_val (10 * acc + d) cs)"

definition unsigned_val :: "string \<Rightarrow> int option" where
  "unsigned_val s = (if s = [] then None else map_option int (digits_val 0 s))"

definition py_int :: "string \<Rightarrow> int option" where
  "py_int s =
     (case strip s of
        [] \<Rightarrow> None
      | c # cs \<Rightarrow>
          if c = CHR ''-'' then map_option uminus (unsigned_val cs)
          else if c = CHR ''+'' then unsigned_val cs
          else unsigned_val (c # cs))"

section \<open>NV items and their type\<close>

definition NV_TYPE_EFS :: string where "NV_TYPE_EFS = ''EFS''"
definition NV_TYPE_EFS_RANGE :: int where "NV_TYPE_EFS_RANGE = 65535"
definition NV_TYPE_ETS :: string where "NV_TYPE_ETS = ''ETS''"
definition NV_TYPE_TA :: string where "NV_TYPE_TA = ''TA''"
definition NV_TYPE_NV :: string where "NV_TYPE_NV = ''NV''"

record nvitem =
  nv_id :: int
  nv_name :: string
  nv_values :: string
  nv_type :: string

text \<open>\<open>NVItem(nv_id, nv_name, nv_values, nv_type=NV_TYPE_NV)\<close>.\<close>

definition NVItem :: "int \<Rightarrow> string \<Rightarrow> string \<Rightarrow> string \<Rightarrow> nvitem" where
  "NVItem i n v t = \<lparr>nv_id = i, nv_name = n, nv_values = v, nv_type = t\<rparr>"

text \<open>
  \<open>NVAutomation._get_nv_type\<close>: the local \<open>nv_type\<close> is assigned three times in a
  row, the range test last.
\<close>

definition get_nv_type :: "int \<Rightarrow> string \<Rightarrow> string" where
  "get_nv_type nvid nv_calibrated =
     (let nv_type0 = NV_TYPE_NV;
          nv_type1 =
            (if lower (strip nv_calibrated) = ''true'' then NV_TYPE_TA
             else if lower (strip nv_calibrated) = ''ets'' then NV_TYPE_ETS
             else nv_type0);
          nv_type2 = (if nvid > NV_TYPE_EFS_RANGE then NV_TYPE_EFS else nv_type1)
      in nv_type2)"

section \<open>The XML documents read through minidom\<close>

text \<open>
  A DOM node is an element (tag name, attributes, child nodes) or a character-data node
  (text, CDATA section, comment: a leaf whose \<open>nodeValue\<close> is its data). The first
  field is the identity of the Python object: \<open>appendChild\<close> moves an object, it does
  not copy it, so a node has to be recognised wherever it currently hangs. A parsed
  document is the list of child nodes of its \<open>Document\<close> node.
\<close>

datatype node =
    Element nat string "(string \<times> string) list" "node list"
  | CharacterData nat string

type_synonym document = "node list"

fun node_ident :: "node \<Rightarrow> nat" where
  "node_ident (Element i t a cs) = i"
| "node_ident (CharacterData i d) = i"

fun childNodes :: "node \<Rightarrow> node list" where
  "childNodes (Element i t a cs) = cs"
| "childNodes (CharacterData i d) = []"

text \<open>\<open>nodeValue\<close> is \<open>None\<close> on an element.\<close>

fun nodeValue :: "node \<Rightarrow> string option" where
  "nodeValue (Element i t a cs) = None"
| "nodeValue (CharacterData i d) = Some d"

text \<open>\<open>getAttribute\<close> returns the empty string for an attribute that is not there.\<close>

fun getAttribute :: "node \<Rightarrow> string \<Rightarrow> string" where
  "getAttribute (Element i t a cs) name = (case map_of a name of None \<Rightarrow> [] | Some v \<Rightarrow> v)"
| "getAttribute (CharacterData i d) name = []"

text \<open>
  \<open>getElementsByTagName\<close>: the elements with the given tag name among all descendants,
  in document order, collected into a list when it is called (minidom's
  \<open>_get_elements_by_tagName_helper\<close>).
\<close>

fun elements_of :: "string \<Rightarrow> node \<Rightarrow> node list"
  and getElementsByTagName :: "string \<Rightarrow> node list \<Rightarrow> node list" where
  "elements_of name (CharacterData i d) = []"
| "elements_of name (Element i t a cs) =
     (if t = name then [Element i t a cs] else []) @ getElementsByTagName name cs"
| "getElementsByTagName name [] = []"
| "getElementsByTagName name (n # ns) = elements_of name n @ getElementsByTagName name ns"

text \<open>The identities of all nodes below a list of nodes, in document order.\<close>

fun idents_of :: "node \<Rightarrow> nat list" and idents :: "node list \<Rightarrow> nat list" where
  "idents_of (CharacterData i d) = [i]"
| "idents_of (Element i t a cs) = i # idents cs"
| "idents [] = []"
| "idents (n # ns) = idents_of n @ idents ns"

text \<open>Looking a node up by identity, and unlinking it from its parent
  (\<open>node.parentNode.removeChild(node)\<close>). Identities are unique in a document, so at
  most one node is concerned.\<close>

fun find_node :: "nat \<Rightarrow> node \<Rightarrow> node option"
  and find_in :: "nat \<Rightarrow> node list \<Rightarrow> node option" where
  "find_node i (CharacterData j d) = (if i = j then Some (CharacterData j d) else None)"
| "find_node i (Element j t a cs) =
     (if i = j then Some (Element j t a cs) else find_in i cs)"
| "find_in i [] = None"
| "find_in i (n # ns) = (case find_node i n of Some m \<Rightarrow> Some m | None \<Rightarrow> find_in i ns)"

fun remove_node :: "nat \<Rightarrow> node \<Rightarrow> node"
  and remove_in :: "nat \<Rightarrow> node list \<Rightarrow> node list" where
  "remove_node i (CharacterData j d) = CharacterData j d"
| "remove_node i (Element j t a cs) = Element j t a (remove_in i cs)"
| "remove_in i [] = []"
| "remove_in i (n # ns) =
     (if node_ident n = i then remove_in i ns else remove_node i n # remove_in i ns)"

section \<open>Files\<close>

text \<open>
  The model neither parses nor prints XML text. A path has two views: what
  \<open>xml.dom.minidom.parse(path)\<close> gives (the document, or one of the two exceptions
  the program handles: \<open>ExpatError\<close> for text that is not well-formed, \<open>IOError\<close>
  for a file that cannot be read) and what \<open>open(path).read()\<close> gives (\<open>None\<close> when
  \<open>open\<close> raises \<open>IOError\<close>); \<open>writable\<close> says whether \<open>open(path, "w")\<close>
  succeeds. A write updates the view it writes through.
\<close>

datatype parse_result = RaisesExpatError | RaisesIOError | Parsed document

record world =
  parse_xml :: "string \<Rightarrow> parse_result"
  file_text :: "string \<Rightarrow> string option"
  writable :: "string \<Rightarrow> bool"

definition write_xml :: "world \<Rightarrow> string \<Rightarrow> document \<Rightarrow> world" where
  "write_xml w path doc = w\<lparr>parse_xml := (parse_xml w)(path := Parsed doc)\<rparr>"

definition write_text :: "world \<Rightarrow> string \<Rightarrow> string \<Rightarrow> world" where
  "write_text w path s = w\<lparr>file_text := (file_text w)(path := Some s)\<rparr>"

text \<open>The fields set by \<open>NVAutomation.__init__\<close> and \<open>NVAutomationQCT.__init__\<close>;
  \<open>new_def_file\<close> is the name made from \<open>uuid.uuid4()\<close> at construction.\<close>

record nvautomation =
  definition_file :: string
  input_file :: string
  connection_port :: string
  new_def_file :: string
  out_file :: string

section \<open>Reading NV items\<close>

text \<open>
  The loop of \<open>_read_nv_items\<close> over the \<open>NvItem\<close> elements. \<open>tag.childNodes[0]\<close>
  is read before the \<open>try\<close> block, so its \<open>IndexError\<close> is not wrapped; inside the
  block \<open>int(nv_id)\<close> is evaluated first (\<open>ValueError\<close>), then \<open>nv_values.strip()\<close>
  (\<open>AttributeError\<close> on \<open>None\<close>); both are re-raised with the same message.
\<close>

fun read_tags :: "node list \<Rightarrow> nvitem list \<Rightarrow> exn + nvitem list" where
  "read_tags [] nv_items = Inr nv_items"
| "read_tags (tag # tags) nv_items =
     (let nvid = getAttribute tag ''id'';
          nv_name = getAttribute tag ''name''
      in case childNodes tag of
           [] \<Rightarrow> Inl IndexError
         | child # _ \<Rightarrow>
             (let nv_values = nodeValue child;
                  nv_calibrated = getAttribute tag ''calibrated''
              in case py_int nvid of
                   None \<Rightarrow> Inl (NVAutomationError ''Invalid NV item found'')
                 | Some i \<Rightarrow>
                     (case nv_values of
                        None \<Rightarrow> Inl (NVAutomationError ''Invalid NV item found'')
                      | Some v \<Rightarrow>
                          read_tags tags
                            (nv_items @
                               [NVItem i (strip nv_name) (strip v)
                                  (get_nv_type i nv_calibrated)]))))"

definition read_nv_items :: "world \<Rightarrow> string \<Rightarrow> exn + nvitem list" where
  "read_nv_items w nv_file =
     (case parse_xml w nv_file of
        RaisesExpatError \<Rightarrow> Inl (NVAutomationError ''Error in parsing the input file'')
      | RaisesIOError \<Rightarrow> Inl (NVAutomationError ''IOError'')
      | Parsed xml_dom \<Rightarrow> read_tags (getElementsByTagName ''NvItem'' xml_dom) [])"

text \<open>\<open>read_input_file(nv_file=None)\<close>: the ids of the items read.\<close>

definition read_input_file :: "world \<Rightarrow> nvautomation \<Rightarrow> string option \<Rightarrow> exn + int list" where
  "read_input_file w self nv_file =
     (let nv_file' = (case nv_file of None \<Rightarrow> input_file self
                      | Some f \<Rightarrow> if f = [] then input_file self else f)
      in case read_nv_items w nv_file' of
           Inl e \<Rightarrow> Inl e
         | Inr nv_items \<Rightarrow> Inr (map nv_id nv_items))"

section \<open>Cross-referencing with the trimmed definition file\<close>

text \<open>
  The inner loop of \<open>_update_nv_items_with_def_file\<close> for one input item: the type of
  the first definition item with the same id and name is taken, then \<open>break\<close>. The
  method assigns to the items of the list it was given and returns that list.
\<close>

fun update_nv_type :: "nvitem \<Rightarrow> nvitem list \<Rightarrow> nvitem" where
  "update_nv_type nv_item [] = nv_item"
| "update_nv_type nv_item (def_nv_item # def_nv_item_list) =
     (if nv_id nv_item = nv_id def_nv_item \<and> nv_name nv_item = nv_name def_nv_item
      then nv_item\<lparr>nv_type := nv_type def_nv_item\<rparr>
      else update_nv_type nv_item def_nv_item_list)"

definition update_nv_items_with_def_file ::
  "world \<Rightarrow> nvautomation \<Rightarrow> nvitem list \<Rightarrow> exn + nvitem list" where
  "update_nv_items_with_def_file w self input_nv_item_list =
     (case read_nv_items w (new_def_file self) of
        Inl e \<Rightarrow> Inl e
      | Inr def_nv_item_list \<Rightarrow>
          Inr (map (\<lambda>nv_item. update_nv_type nv_item def_nv_item_list) input_nv_item_list))"

section \<open>The report\<close>

definition RESULT_OK :: string where "RESULT_OK = ''OK''"
definition RESULT_NG :: string where "RESULT_NG = ''NG''"
definition RESULT_PASSED :: string where
  "RESULT_PASSED = ''<span style='color:green;'>PASSED</span>''"
definition RESULT_FAILED :: string where
  "RESULT_FAILED = ''<span style='color:red;'>FAILED</span>''"
definition RESULT_SKIPPED :: string where
  "RESULT_SKIPPED = ''<span style='color:gray;'>SKIPPED</span>''"
definition REPORT_SUMMARY_PASSED :: string where
  "REPORT_SUMMARY_PASSED = ''<span style='color:green;'>PASSED</span>''"
definition REPORT_SUMMARY_FAILED :: string where
  "REPORT_SUMMARY_FAILED = ''<span style='color:red;'>FAILED</span>''"

text \<open>The template lies beside the module; only its file name is kept here.\<close>

definition REPORT_TEMPLATE_FILE :: string where
  "REPORT_TEMPLATE_FILE = ''verification_report_template.txt''"

record verification_item =
  input_nv_item :: nvitem
  output_nv_item :: nvitem
  verification_result :: string

definition VerificationItem :: "nvitem \<Rightarrow> nvitem \<Rightarrow> string \<Rightarrow> verification_item" where
  "VerificationItem i out r =
     \<lparr>input_nv_item = i, output_nv_item = out, verification_result = r\<rparr>"

subsection \<open>String operations\<close>

text \<open>\<open>readlines()\<close>: the lines of a text, each with the newline character that
  ends it; a last line may have none.\<close>

fun readlines :: "string \<Rightarrow> string list" where
  "readlines [] = []"
| "readlines (c # cs) =
     (if c = CHR 0x0A then [c] # readlines cs
      else (case readlines cs of [] \<Rightarrow> [[c]] | l # ls \<Rightarrow> (c # l) # ls))"

definition starts_with :: "string \<Rightarrow> string \<Rightarrow> bool" where
  "starts_with pat s = (take (length pat) s = pat)"

text \<open>\<open>re.search(pat, line)\<close> for a pattern of literal characters, as the three
  markers are: does \<open>pat\<close> occur in \<open>line\<close>.\<close>

fun re_search :: "string \<Rightarrow> string \<Rightarrow> bool" where
  "re_search pat [] = (pat = [])"
| "re_search pat (c # cs) = (starts_with pat (c # cs) \<or> re_search pat cs)"

text \<open>\<open>s.replace(old, new)\<close>: every occurrence, from the left, without overlap.\<close>

function replace :: "string \<Rightarrow> string \<Rightarrow> string \<Rightarrow> string" where
  "replace old new [] = (if old = [] then new else [])"
| "replace old new (c # cs) =
     (if old = [] then new @ c # replace old new cs
      else if starts_with old (c # cs)
           then new @ replace old new (drop (length old) (c # cs))
           else c # replace old new cs)"
  by pat_completeness auto
termination
  by (relation "measure (\<lambda>(old, new, s). length s)") auto

text \<open>\<open>str(n)\<close> for an integer.\<close>

definition digit_char :: "nat \<Rightarrow> char" where
  "digit_char d = ''0123456789'' ! d"

function nat_str :: "nat \<Rightarrow> string" where
  "nat_str n = (if n < 10 then [digit_char n] else nat_str (n div 10) @ [digit_char (n mod 10)])"
  by pat_completeness auto
termination
  by (relation "measure id") auto

declare nat_str.simps [simp del]

definition int_str :: "int \<Rightarrow> string" where
  "int_str i = (if i < 0 then CHR ''-'' # nat_str (nat (- i)) else nat_str (nat i))"

fun py_str :: "pyval \<Rightarrow> string" where
  "py_str PyNone = ''None''"
| "py_str (PyInt i) = int_str i"
| "py_str (PyStr s) = s"

text \<open>
  \<open>fmt % args\<close> for the conversions \<open>%s\<close>, \<open>%d\<close> and \<open>%%\<close>, the ones a template of
  this program uses (no flags, width or precision). Too few or too many arguments and
  \<open>%d\<close> on a value that is not a number are \<open>TypeError\<close>; another conversion
  character, or a \<open>%\<close> that ends the string, is \<open>ValueError\<close>.
\<close>

fun py_format :: "string \<Rightarrow> pyval list \<Rightarrow> exn + string" where
  "py_format [] args = (if args = [] then Inr [] else Inl TypeError)"
| "py_format [c] args =
     (if c = CHR ''%'' then Inl ValueError
      else if args = [] then Inr [c] else Inl TypeError)"
| "py_format (c # d # cs) args =
     (if c \<noteq> CHR ''%'' then map_sum id ((#) c) (py_format (d # cs) args)
      else if d = CHR ''%'' then map_sum id ((#) CHR ''%'') (py_format cs args)
      else if d = CHR ''s'' then
        (case args of
           [] \<Rightarrow> Inl TypeError
         | a # rest \<Rightarrow> map_sum id ((@) (py_str a)) (py_format cs rest))
      else if d = CHR ''d'' then
        (case args of
           [] \<Rightarrow> Inl TypeError
         | PyInt i # rest \<Rightarrow> map_sum id ((@) (int_str i)) (py_format cs rest)
         | _ # rest \<Rightarrow> Inl TypeError)
      else Inl ValueError)"

subsection \<open>The template\<close>

text \<open>
  The loop of \<open>_read_report_template\<close>. The three locals are unbound before the loop
  (\<open>None\<close> here); a line sets at most one of them, the first whose marker it holds.
\<close>

fun template_lines ::
  "string list \<Rightarrow> string option \<times> string option \<times> string option
     \<Rightarrow> string option \<times> string option \<times> string option" where
  "template_lines [] vars = vars"
| "template_lines (line # rest) (report_header, report_values, report_footer) =
     template_lines rest
       (if re_search ''%header%'' line
        then (Some (replace ''%header%'' [] (strip line)), report_values, report_footer)
        else if re_search ''%values%'' line
        then (report_header, Some (replace ''%values%'' [] (strip line)), report_footer)
        else if re_search ''%footer%'' line
        then (report_header, report_values, Some (replace ''%footer%'' [] (strip line)))
        else (report_header, report_values, report_footer))"

text \<open>
  \<open>_read_report_template\<close>: \<open>IOError\<close> is caught and nothing else. The \<open>return\<close> reads the three
  locals from left to right, and reading an unbound one raises \<open>UnboundLocalError\<close>.
\<close>

definition read_report_template ::
  "world \<Rightarrow> string \<Rightarrow> exn + (string \<times> string \<times> string)" where
  "read_report_template w report_template_file =
     (case file_text w report_template_file of
        None \<Rightarrow> Inl (NVAutomationError ''Unable to read the template file'')
      | Some text \<Rightarrow>
          (case template_lines (readlines text) (None, None, None) of
             (None, _, _) \<Rightarrow> Inl (UnboundLocalError ''report_header'')
           | (Some h, None, _) \<Rightarrow> Inl (UnboundLocalError ''report_values'')
           | (Some h, Some v, None) \<Rightarrow> Inl (UnboundLocalError ''report_footer'')
           | (Some h, Some v, Some f) \<Rightarrow> Inr (h, v, f)))"

subsection \<open>Publishing\<close>

text \<open>
  The loop of \<open>publish_verification_result\<close> over the results, with its two
  accumulators \<open>report_values\<close> and \<open>summary\<close>.
\<close>

fun publish_rows ::
  "string \<Rightarrow> verification_item list \<Rightarrow> string \<Rightarrow> string \<Rightarrow> exn + (string \<times> string)" where
  "publish_rows REPORT_VALUES [] report_values summary = Inr (report_values, summary)"
| "publish_rows REPORT_VALUES (result # rest) report_values summary =
     (let failed = (nv_type (input_nv_item result) = NV_TYPE_NV
                      \<and> verification_result result = RESULT_NG);
          nv_item_verification_result =
            (if failed then RESULT_FAILED
             else if nv_type (input_nv_item result) \<noteq> NV_TYPE_NV then RESULT_SKIPPED
             else RESULT_PASSED);
          summary' = (if failed then REPORT_SUMMARY_FAILED else summary)
      in case py_format REPORT_VALUES
                [PyInt (nv_id (input_nv_item result)),
                 PyStr (nv_values (input_nv_item result)),
                 PyStr (nv_values (output_nv_item result)),
                 PyStr (nv_name (input_nv_item result)),
                 PyStr (nv_name (output_nv_item result)),
                 PyStr (nv_type (input_nv_item result)),
                 PyStr nv_item_verification_result] of
           Inl e \<Rightarrow> Inl e
         | Inr row \<Rightarrow> publish_rows REPORT_VALUES rest (report_values @ row) summary')"

text \<open>
  \<open>publish_verification_result\<close>. The template is read outside the \<open>try\<close> block.
  \<open>open(report_file, "w")\<close> empties the file before the loop runs; \<open>IOError\<close> and
  \<open>TypeError\<close> are wrapped, anything else goes through.
\<close>

definition wrap_publish_error :: "exn \<Rightarrow> exn" where
  "wrap_publish_error e =
     (case e of
        IOError \<Rightarrow> NVAutomationError ''Unable to publish the result''
      | TypeError \<Rightarrow> NVAutomationError ''Unable to publish the result''
      | _ \<Rightarrow> e)"

definition publish_verification_result ::
  "world \<Rightarrow> verification_item list \<Rightarrow> string \<Rightarrow> (exn + pyval) \<times> world" where
  "publish_verification_result w result_list report_file =
     (let summary = (if result_list = [] then REPORT_SUMMARY_FAILED
                     else REPORT_SUMMARY_PASSED)
      in case read_report_template w REPORT_TEMPLATE_FILE of
           Inl e \<Rightarrow> (Inl e, w)
         | Inr (REPORT_HEADER, REPORT_VALUES, REPORT_FOOTER) \<Rightarrow>
             if \<not> writable w report_file
             then (Inl (wrap_publish_error IOError), w)
             else
               (let w' = write_text w report_file [] in
                case publish_rows REPORT_VALUES result_list [] summary of
                  Inl e \<Rightarrow> (Inl (wrap_publish_error e), w')
                | Inr (report_values, summary') \<Rightarrow>
                    (case py_format REPORT_FOOTER [PyStr summary'] of
                       Inl e \<Rightarrow> (Inl (wrap_publish_error e), w')
                     | Inr footer \<Rightarrow>
                         (Inr PyNone,
                          write_text w' report_file
                            (REPORT_HEADER @ report_values @ footer)))))"

section \<open>Verification\<close>

text \<open>
  The inner loop of \<open>verify\<close> for one input item: \<open>Some out_nv_item\<close> when the loop
  left through \<open>break\<close> with \<open>found_matched_in_nv_item\<close> set, at the first device
  item with the same id and name; \<open>None\<close> when it ran to the end.
\<close>

fun find_matched :: "nvitem \<Rightarrow> nvitem list \<Rightarrow> nvitem option" where
  "find_matched in_nv_item [] = None"
| "find_matched in_nv_item (out_nv_item # output_nv_items) =
     (if nv_id in_nv_item = nv_id out_nv_item \<and> nv_name in_nv_item = nv_name out_nv_item
      then Some out_nv_item
      else find_matched in_nv_item output_nv_items)"

definition verify_item :: "nvitem \<Rightarrow> nvitem list \<Rightarrow> verification_item" where
  "verify_item in_nv_item output_nv_items =
     (case find_matched in_nv_item output_nv_items of
        Some out_nv_item \<Rightarrow>
          if nv_values in_nv_item = nv_values out_nv_item
          then VerificationItem in_nv_item out_nv_item RESULT_OK
          else VerificationItem in_nv_item out_nv_item RESULT_NG
      | None \<Rightarrow> VerificationItem in_nv_item (NVItem (- 1) [] [] NV_TYPE_NV) RESULT_NG)"

fun verify_items ::
  "nvitem list \<Rightarrow> nvitem list \<Rightarrow> verification_item list \<Rightarrow> verification_item list" where
  "verify_items [] output_nv_items verification_result_list = verification_result_list"
| "verify_items (in_nv_item # input_nv_items) output_nv_items verification_result_list =
     verify_items input_nv_items output_nv_items
       (verification_result_list @ [verify_item in_nv_item output_nv_items])"

text \<open>
  \<open>NVAutomationQCT.verify(report_file=None)\<close>: the input file is read and re-typed, the
  device file is read, the two lists are tested, the items are compared, and the report
  is published when \<open>report_file\<close> is given and not empty.
\<close>

definition verify ::
  "world \<Rightarrow> nvautomation \<Rightarrow> string option \<Rightarrow> (exn + verification_item list) \<times> world" where
  "verify w self report_file =
     (case read_nv_items w (input_file self) of
        Inl e \<Rightarrow> (Inl e, w)
      | Inr read_items \<Rightarrow>
     (case update_nv_items_with_def_file w self read_items of
        Inl e \<Rightarrow> (Inl e, w)
      | Inr input_nv_items \<Rightarrow>
     (case read_nv_items w (out_file self) of
        Inl e \<Rightarrow> (Inl e, w)
      | Inr output_nv_items \<Rightarrow>
          if input_nv_items = [] \<or> output_nv_items = []
          then (Inl (NVAutomationError
                       ''Can't verify. Problem in input or output nv items.''), w)
          else
            (let verification_result_list = verify_items input_nv_items output_nv_items []
             in case report_file of
                  None \<Rightarrow> (Inr verification_result_list, w)
                | Some f \<Rightarrow>
                    if f = [] then (Inr verification_result_list, w)
                    else
                      (case publish_verification_result w verification_result_list f of
                         (Inl e, w') \<Rightarrow> (Inl e, w')
                       | (Inr _, w') \<Rightarrow> (Inr verification_result_list, w'))))))"

section \<open>Trimming the definition file\<close>

text \<open>
  The state of the two loops of \<open>create_new_definition_file\<close>: the child nodes of the
  parsed definition document and the child nodes of the new \<open>NvDefinition\<close> root.
  \<open>root_tag.appendChild(tag)\<close> unlinks \<open>tag\<close> from its parent, if it has one, and
  puts it last under the root; \<open>tag\<close> may hang in the parsed document or already
  below the root.
\<close>

definition appendChild :: "node \<Rightarrow> document \<times> node list \<Rightarrow> document \<times> node list" where
  "appendChild tag st =
     (case find_in (node_ident tag) (fst st) of
        Some n \<Rightarrow> (remove_in (node_ident tag) (fst st), snd st @ [n])
      | None \<Rightarrow>
          (case find_in (node_ident tag) (snd st) of
             Some n \<Rightarrow> (fst st, remove_in (node_ident tag) (snd st) @ [n])
           | None \<Rightarrow> (fst st, snd st @ [tag])))"

fun append_data_types :: "node list \<Rightarrow> document \<times> node list \<Rightarrow> document \<times> node list" where
  "append_data_types [] st = st"
| "append_data_types (tag # tags) st = append_data_types tags (appendChild tag st)"

text \<open>The loop over the input ids for one \<open>NvItem\<close> element; \<open>int(tag_id)\<close> is
  evaluated at each turn.\<close>

fun append_if_listed ::
  "node \<Rightarrow> int list \<Rightarrow> document \<times> node list \<Rightarrow> exn + document \<times> node list" where
  "append_if_listed tag [] st = Inr st"
| "append_if_listed tag (nvid # input_nv_id_list) st =
     (case py_int (getAttribute tag ''id'') of
        None \<Rightarrow> Inl ValueError
      | Some tag_id \<Rightarrow>
          append_if_listed tag input_nv_id_list
            (if nvid = tag_id then appendChild tag st else st))"

fun append_nv_items ::
  "node list \<Rightarrow> int list \<Rightarrow> document \<times> node list \<Rightarrow> exn + document \<times> node list" where
  "append_nv_items [] input_nv_id_list st = Inr st"
| "append_nv_items (tag # tags) input_nv_id_list st =
     (case append_if_listed tag input_nv_id_list st of
        Inl e \<Rightarrow> Inl e
      | Inr st' \<Rightarrow> append_nv_items tags input_nv_id_list st')"

text \<open>\<open>createElement\<close> makes a new object: an identity that the parsed document does
  not use.\<close>

definition fresh_ident :: "document \<Rightarrow> nat" where
  "fresh_ident d = Suc (foldr max (idents d) 0)"

text \<open>
  \<open>create_new_definition_file\<close>. The input file is read before the first \<open>try\<close>, so
  its errors pass unchanged. In the second \<open>try\<close> block \<open>ValueError\<close> comes from
  \<open>int(tag_id)\<close> and \<open>IOError\<close> from \<open>open(self.new_def_file, "w")\<close>. The method has
  no \<open>return\<close> statement.
\<close>

definition create_new_definition_file ::
  "world \<Rightarrow> nvautomation \<Rightarrow> (exn + pyval) \<times> world" where
  "create_new_definition_file w self =
     (case read_input_file w self None of
        Inl e \<Rightarrow> (Inl e, w)
      | Inr input_nv_id_list \<Rightarrow>
     (case parse_xml w (definition_file self) of
        RaisesExpatError \<Rightarrow>
          (Inl (NVAutomationError ''Error in parsing the definition file''), w)
      | RaisesIOError \<Rightarrow> (Inl (NVAutomationError ''Error in reading definition file''), w)
      | Parsed xml_dom \<Rightarrow>
          (let st = append_data_types (getElementsByTagName ''DataType'' xml_dom) (xml_dom, [])
           in case append_nv_items (getElementsByTagName ''NvItem'' (fst st))
                     input_nv_id_list st of
                Inl ValueError \<Rightarrow> (Inl (NVAutomationError ''Invalid nv item found''), w)
              | Inl e \<Rightarrow>
                  (Inl (NVAutomationError ''Unknown error in creating new definitionfile''), w)
              | Inr st' \<Rightarrow>
                  if writable w (new_def_file self)
                  then (Inr PyNone,
                        write_xml w (new_def_file self)
                          [Element (fresh_ident xml_dom) ''NvDefinition'' [] (snd st')])
                  else (Inl (NVAutomationError ''Error in creating new definition file''),
                        w))))"

section \<open>Notions used in the properties\<close>

text \<open>
  The record that one \<open>NvItem\<close> element stands for: its id attribute as an integer,
  its name attribute and the value of its first child node, both stripped, and the type
  from the id and the calibrated attribute. There is none when the id is not an integer,
  when the element has no child node, or when the first child has no value.
\<close>

definition nv_item_of :: "node \<Rightarrow> nvitem option" where
  "nv_item_of tag =
     (case py_int (getAttribute tag ''id'') of
        None \<Rightarrow> None
      | Some i \<Rightarrow>
          (case childNodes tag of
             [] \<Rightarrow> None
           | child # _ \<Rightarrow>
               (case nodeValue child of
                  None \<Rightarrow> None
                | Some v \<Rightarrow>
                    Some (NVItem i (strip (getAttribute tag ''name'')) (strip v)
                            (get_nv_type i (getAttribute tag ''calibrated''))))))"

text \<open>
  An \<open>NvItem\<close> element is listed when its id attribute, parsed as an integer, is one
  of the input ids.
\<close>

definition listed :: "int list \<Rightarrow> node \<Rightarrow> bool" where
  "listed ids tag =
     (case py_int (getAttribute tag ''id'') of None \<Rightarrow> False | Some k \<Rightarrow> k \<in> set ids)"

text \<open>
  The declarations of a definition document are its \<open>DataType\<close> and \<open>NvItem\<close>
  elements. They are unnested when no declaration lies inside another one.
\<close>

definition decls :: "node list \<Rightarrow> node set" where
  "decls ns =
     set (getElementsByTagName ''DataType'' ns) \<union> set (getElementsByTagName ''NvItem'' ns)"

definition unnested :: "node list \<Rightarrow> bool" where
  "unnested ns =
     list_all (\<lambda>e. getElementsByTagName ''DataType'' (childNodes e) = []
                  \<and> getElementsByTagName ''NvItem'' (childNodes e) = [])
       (getElementsByTagName ''DataType'' ns @ getElementsByTagName ''NvItem'' ns)"

section \<open>A sample run\<close>

text \<open>
  The files of a run. The input asks for items 1, 2 and 3. The master definition
  declares one data type and the items 1, 2 and 9, and marks 2 as calibrated; the
  trimmed definition keeps the data type and the items 1 and 2. The device returns the
  value asked for item 1, another value for item 2, and item 3 under another name.
\<close>

definition sample_master :: document where
  "sample_master =
     [Element 0 ''NvDefinition'' []
        [Element 1 ''DataType'' [(''name'', ''t'')] [CharacterData 2 ''uint8''],
         Element 3 ''NvItem'' [(''id'', ''1''), (''name'', ''a''), (''calibrated'', ''false'')]
           [CharacterData 4 ''t''],
         Element 5 ''NvItem'' [(''id'', ''2''), (''name'', ''b''), (''calibrated'', ''true'')]
           [CharacterData 6 ''t''],
         Element 7 ''NvItem'' [(''id'', ''9''), (''name'', ''z''), (''calibrated'', ''false'')]
           [CharacterData 8 ''t'']]]"

definition sample_input :: document where
  "sample_input =
     [Element 0 ''NvSource'' []
        [Element 1 ''NvItem'' [(''id'', ''1''), (''name'', ''a''), (''calibrated'', ''false'')]
           [CharacterData 2 ''5''],
         Element 3 ''NvItem'' [(''id'', ''2''), (''name'', ''b''), (''calibrated'', ''false'')]
           [CharacterData 4 ''3''],
         Element 5 ''NvItem'' [(''id'', ''3''), (''name'', ''c''), (''calibrated'', ''false'')]
           [CharacterData 6 '' 7 '']]]"

definition sample_trimmed :: document where
  "sample_trimmed =
     [Element 9 ''NvDefinition'' []
        [Element 1 ''DataType'' [(''name'', ''t'')] [CharacterData 2 ''uint8''],
         Element 3 ''NvItem'' [(''id'', ''1''), (''name'', ''a''), (''calibrated'', ''false'')]
           [CharacterData 4 ''t''],
         Element 5 ''NvItem'' [(''id'', ''2''), (''name'', ''b''), (''calibrated'', ''true'')]
           [CharacterData 6 ''t'']]]"

definition sample_device :: document where
  "sample_device =
     [Element 0 ''NvSource'' []
        [Element 1 ''NvItem'' [(''id'', ''1''), (''name'', ''a''), (''calibrated'', ''false'')]
           [CharacterData 2 ''5''],
         Element 3 ''NvItem'' [(''id'', ''2''), (''name'', ''b''), (''calibrated'', ''false'')]
           [CharacterData 4 ''9''],
         Element 5 ''NvItem'' [(''id'', ''3''), (''name'', ''x''), (''calibrated'', ''false'')]
           [CharacterData 6 ''7'']]]"

definition sample_template :: string where
  "sample_template =
     ''<table>%header%'' @ [CHR 0x0A] @
     ''<tr>%d|%s|%s|%s|%s|%s|%s</tr>%values%'' @ [CHR 0x0A] @
     ''</table>%s%footer%'' @ [CHR 0x0A]"

definition sample_parse :: "string \<Rightarrow> parse_result" where
  "sample_parse path =
     (if path = ''input.xml'' then Parsed sample_input
      else if path = ''definition.xml'' then Parsed sample_master
      else if path = ''new_definition.xml'' then Parsed sample_trimmed
      else if path = ''nv_out.xml'' then Parsed sample_device
      else RaisesIOError)"

definition sample_text :: "string \<Rightarrow> string option" where
  "sample_text path = (if path = REPORT_TEMPLATE_FILE then Some sample_template else None)"

definition sample_writable :: "string \<Rightarrow> bool" where
  "sample_writable path = True"

definition sample_world :: world where
  "sample_world =
     \<lparr>parse_xml = sample_parse, file_text = sample_text, writable = sample_writable\<rparr>"

definition sample_self :: nvautomation where
  "sample_self =
     \<lparr>definition_file = ''definition.xml'', input_file = ''input.xml'',
      connection_port = ''COM3'', new_def_file = ''new_definition.xml'',
      out_file = ''nv_out.xml''\<rparr>"

definition sample_read_items :: "nvitem list" where
  "sample_read_items =
     [NVItem 1 ''a'' ''5'' ''NV'', NVItem 2 ''b'' ''3'' ''NV'', NVItem 3 ''c'' ''7'' ''NV'']"

definition sample_def_items :: "nvitem list" where
  "sample_def_items = [NVItem 1 ''a'' ''t'' ''NV'', NVItem 2 ''b'' ''t'' ''TA'']"

definition sample_input_items :: "nvitem list" where
  "sample_input_items =
     [NVItem 1 ''a'' ''5'' ''NV'', NVItem 2 ''b'' ''3'' ''TA'', NVItem 3 ''c'' ''7'' ''NV'']"

definition sample_device_items :: "nvitem list" where
  "sample_device_items =
     [NVItem 1 ''a'' ''5'' ''NV'', NVItem 2 ''b'' ''9'' ''NV'', NVItem 3 ''x'' ''7'' ''NV'']"

definition sample_results :: "verification_item list" where
  "sample_results =
     [VerificationItem (NVItem 1 ''a'' ''5'' ''NV'') (NVItem 1 ''a'' ''5'' ''NV'') ''OK'',
      VerificationItem (NVItem 2 ''b'' ''3'' ''TA'') (NVItem 2 ''b'' ''9'' ''NV'') ''NG'',
      VerificationItem (NVItem 3 ''c'' ''7'' ''NV'') (NVItem (- 1) [] [] ''NV'') ''NG'']"

definition sample_report :: string where
  "sample_report =
     ''<table>'' @
     ''<tr>1|5|5|a|a|NV|<span style='color:green;'>PASSED</span></tr>'' @
     ''<tr>2|3|9|b|b|TA|<span style='color:gray;'>SKIPPED</span></tr>'' @
     ''<tr>3|7||c||NV|<span style='color:red;'>FAILED</span></tr>'' @
     ''</table><span style='color:red;'>FAILED</span>''"

text \<open>The same run with a device file that holds no item.\<close>

definition silent_parse :: "string \<Rightarrow> parse_result" where
  "silent_parse path =
     (if path = ''nv_out.xml'' then Parsed [Element 0 ''NvSource'' [] []]
      else sample_parse path)"

definition silent_world :: world where
  "silent_world =
     \<lparr>parse_xml = silent_parse, file_text = sample_text, writable = sample_writable\<rparr>"

text \<open>The same run with a template that has no footer line.\<close>

definition footless_template :: string where
  "footless_template =
     ''<table>%header%'' @ [CHR 0x0A] @
     ''<tr>%d|%s|%s|%s|%s|%s|%s</tr>%values%'' @ [CHR 0x0A]"

definition footless_text :: "string \<Rightarrow> string option" where
  "footless_text path =
     (if path = REPORT_TEMPLATE_FILE then Some footless_template else None)"

definition footless_world :: world where
  "footless_world =
     \<lparr>parse_xml = sample_parse, file_text = footless_text, writable = sample_writable\<rparr>"

text \<open>An input file whose second item has an id that is not an integer.\<close>

definition bad_id_input :: document where
  "bad_id_input =
     [Element 0 ''NvSource'' []
        [Element 1 ''NvItem'' [(''id'', ''1''), (''name'', ''a''), (''calibrated'', ''false'')]
           [CharacterData 2 ''5''],
         Element 3 ''NvItem'' [(''id'', ''2x''), (''name'', ''b''), (''calibrated'', ''false'')]
           [CharacterData 4 ''3'']]]"

definition bad_id_parse :: "string \<Rightarrow> parse_result" where
  "bad_id_parse path = Parsed bad_id_input"

definition bad_id_world :: world where
  "bad_id_world =
     \<lparr>parse_xml = bad_id_parse, file_text = sample_text, writable = sample_writable\<rparr>"

text \<open>A master definition in which an \<open>NvItem\<close> element lies inside a
  \<open>DataType\<close> element, and the file that is made from it for the sample input.\<close>

definition nested_master :: document where
  "nested_master =
     [Element 0 ''NvDefinition'' []
        [Element 1 ''DataType'' [(''name'', ''t'')]
           [Element 2 ''NvItem'' [(''id'', ''9'')] [CharacterData 3 ''x'']]]]"

definition nested_trimmed :: document where
  "nested_trimmed =
     [Element 4 ''NvDefinition'' []
        [Element 1 ''DataType'' [(''name'', ''t'')]
           [Element 2 ''NvItem'' [(''id'', ''9'')] [CharacterData 3 ''x'']]]]"

definition nested_parse :: "string \<Rightarrow> parse_result" where
  "nested_parse path =
     (if path = ''definition.xml'' then Parsed nested_master else sample_parse path)"

definition nested_world :: world where
  "nested_world =
     \<lparr>parse_xml = nested_parse, file_text = sample_text, writable = sample_writable\<rparr>"

text \<open>An input file whose only item has an id and a value and neither a name nor a
  calibrated attribute.\<close>

definition bare_input :: document where
  "bare_input =
     [Element 0 ''NvSource'' []
        [Element 1 ''NvItem'' [(''id'', ''5'')] [CharacterData 2 ''1,2'']]]"

definition bare_parse :: "string \<Rightarrow> parse_result" where
  "bare_parse path = Parsed bare_input"

definition bare_world :: world where
  "bare_world =
     \<lparr>parse_xml = bare_parse, file_text = sample_text, writable = sample_writable\<rparr>"

section \<open>Type classification\<close>

lemmas nv_type_defs =
  NV_TYPE_EFS_def NV_TYPE_EFS_RANGE_def NV_TYPE_ETS_def NV_TYPE_TA_def NV_TYPE_NV_def

text \<open>
  C2. For every integer id and every calibrated string, \<open>_get_nv_type\<close> returns EFS when
  the id is greater than 65535, whatever the calibrated value; otherwise TA when the
  calibrated string, stripped and lowercased, is "true", otherwise ETS when it is "ets",
  otherwise NV.
\<close>

theorem get_nv_type_classification:
  "get_nv_type nvid cal =
     (if nvid > 65535 then ''EFS''
      else if lower (strip cal) = ''true'' then ''TA''
      else if lower (strip cal) = ''ets'' then ''ETS''
      else ''NV'')"
  by (simp add: get_nv_type_def nv_type_defs)

theorem get_nv_type_classification_witness:
  "get_nv_type 70000 ''true'' = ''EFS'' \<and> get_nv_type 65535 '' True '' = ''TA''
     \<and> get_nv_type 7 ''ETS'' = ''ETS'' \<and> get_nv_type 7 ''false'' = ''NV''"
  by (simp add: get_nv_type_classification strip_def lower_def lower_char_def isspace_def)

section \<open>Evaluating the sample run\<close>

lemmas str_defs = strip_def isspace_def lower_def lower_char_def py_int_def unsigned_val_def
  digit_val_def
lemmas sample_defs = sample_world_def sample_self_def sample_parse_def sample_text_def
  sample_writable_def sample_input_def sample_trimmed_def sample_device_def

lemma sample_read_input: "read_nv_items sample_world ''input.xml'' = Inr sample_read_items"
  by (simp add: read_nv_items_def sample_defs sample_read_items_def str_defs
      get_nv_type_def nv_type_defs NVItem_def)

lemma sample_read_def: "read_nv_items sample_world ''new_definition.xml'' = Inr sample_def_items"
  by (simp add: read_nv_items_def sample_defs sample_def_items_def str_defs
      get_nv_type_def nv_type_defs NVItem_def)

lemma sample_read_device: "read_nv_items sample_world ''nv_out.xml'' = Inr sample_device_items"
  by (simp add: read_nv_items_def sample_defs sample_device_items_def str_defs
      get_nv_type_def nv_type_defs NVItem_def)

lemma sample_update:
  "update_nv_items_with_def_file sample_world sample_self sample_read_items = Inr sample_input_items"
  using sample_read_def
  by (simp add: update_nv_items_with_def_file_def sample_self_def sample_read_items_def
      sample_def_items_def sample_input_items_def NVItem_def)

lemma sample_template_read:
  "read_report_template sample_world REPORT_TEMPLATE_FILE =
     Inr (''<table>'', ''<tr>%d|%s|%s|%s|%s|%s|%s</tr>'', ''</table>%s'')"
  by (simp add: read_report_template_def sample_world_def sample_text_def sample_template_def
      starts_with_def strip_def isspace_def)

section \<open>Cross-referencing changes the type and nothing else\<close>

lemma update_nv_type_find:
  "update_nv_type it defs =
     (case find (\<lambda>d. nv_id d = nv_id it \<and> nv_name d = nv_name it) defs of
        None \<Rightarrow> it | Some d \<Rightarrow> it\<lparr>nv_type := nv_type d\<rparr>)"
  by (induction defs) auto

text \<open>
  C9. For every input item list and every list of items read from the trimmed
  definition file, \<open>_update_nv_items_with_def_file\<close> returns the input items in their
  order with id, name and values unchanged; the type of an item becomes the type of the
  first definition item with the same id and the same name, and an item for which there
  is no such definition item is returned as it was.
\<close>

theorem update_nv_items_frame:
  assumes "read_nv_items w (new_def_file self) = Inr defs"
  shows "\<exists>out. update_nv_items_with_def_file w self items = Inr out
           \<and> length out = length items
           \<and> (\<forall>i<length items.
                 nv_id (out ! i) = nv_id (items ! i)
               \<and> nv_name (out ! i) = nv_name (items ! i)
               \<and> nv_values (out ! i) = nv_values (items ! i)
               \<and> (case find (\<lambda>d. nv_id d = nv_id (items ! i) \<and> nv_name d = nv_name (items ! i)) defs of
                     Some d \<Rightarrow> nv_type (out ! i) = nv_type d
                   | None \<Rightarrow> out ! i = items ! i))"
  using assms
  by (simp add: update_nv_items_with_def_file_def update_nv_type_find split: option.splits)

section \<open>The comparison\<close>

lemma find_matched_find:
  "find_matched it outs = find (\<lambda>out. nv_id out = nv_id it \<and> nv_name out = nv_name it) outs"
  by (induction outs) auto

lemma verify_items_map:
  "verify_items ins outs acc = acc @ map (\<lambda>i. verify_item i outs) ins"
  by (induction ins arbitrary: acc) auto

text \<open>
  C1. When the re-typed input list and the device list are both non-empty, \<open>verify\<close>
  produces one \<open>VerificationItem\<close> per input item, in the order of the input list.
  The device item compared with an input item is the first one with the same id and
  the same name (the same id under another name does not count): the result is OK when
  the two value strings are equal and NG when they differ. When no device item has that
  id and name, the result is NG and the output item is \<open>NVItem(-1, "", "")\<close>. Without a
  report file the list is returned and nothing is written; with one, a list that is
  returned is this same list.
\<close>

theorem verify_compares:
  assumes "read_nv_items w (input_file self) = Inr read_items"
    and "update_nv_items_with_def_file w self read_items = Inr ins"
    and "read_nv_items w (out_file self) = Inr outs"
    and "ins \<noteq> []" and "outs \<noteq> []"
  shows "\<exists>rs. verify w self None = (Inr rs, w)
           \<and> (\<forall>report_file rs'. fst (verify w self report_file) = Inr rs' \<longrightarrow> rs' = rs)
           \<and> length rs = length ins
           \<and> (\<forall>i<length ins.
                 input_nv_item (rs ! i) = ins ! i
               \<and> (case find (\<lambda>out. nv_id out = nv_id (ins ! i) \<and> nv_name out = nv_name (ins ! i)) outs of
                     Some out \<Rightarrow>
                       output_nv_item (rs ! i) = out
                     \<and> verification_result (rs ! i) =
                         (if nv_values (ins ! i) = nv_values out then ''OK'' else ''NG'')
                   | None \<Rightarrow>
                       output_nv_item (rs ! i) =
                         \<lparr>nv_id = - 1, nv_name = [], nv_values = [], nv_type = ''NV''\<rparr>
                     \<and> verification_result (rs ! i) = ''NG''))"
proof -
  let ?rs = "map (\<lambda>i. verify_item i outs) ins"
  have v: "verify w self None = (Inr ?rs, w)"
    using assms by (simp add: verify_def verify_items_map)
  have u: "fst (verify w self report_file) = Inr rs' \<Longrightarrow> rs' = ?rs" for report_file rs'
    using assms
    by (auto simp: verify_def verify_items_map Let_def
        split: option.splits if_splits sum.splits prod.splits)
  have p: "\<forall>i<length ins.
             input_nv_item (?rs ! i) = ins ! i
           \<and> (case find (\<lambda>out. nv_id out = nv_id (ins ! i) \<and> nv_name out = nv_name (ins ! i)) outs of
                 Some out \<Rightarrow>
                   output_nv_item (?rs ! i) = out
                 \<and> verification_result (?rs ! i) =
                     (if nv_values (ins ! i) = nv_values out then ''OK'' else ''NG'')
               | None \<Rightarrow>
                   output_nv_item (?rs ! i) =
                     \<lparr>nv_id = - 1, nv_name = [], nv_values = [], nv_type = ''NV''\<rparr>
                 \<and> verification_result (?rs ! i) = ''NG'')"
    by (simp add: verify_item_def find_matched_find VerificationItem_def NVItem_def
        RESULT_OK_def RESULT_NG_def NV_TYPE_NV_def split: option.splits)
  show ?thesis
    using v u p by (intro exI[of _ ?rs]) simp
qed

text \<open>
  C6. When the re-typed input list or the device list is empty, \<open>verify\<close> raises
  \<open>NVAutomationError\<close> whatever the report file: no list is returned, and the files
  are as they were, so no report has been written.
\<close>

theorem verify_empty_fails:
  assumes "read_nv_items w (input_file self) = Inr read_items"
    and "update_nv_items_with_def_file w self read_items = Inr ins"
    and "read_nv_items w (out_file self) = Inr outs"
    and "ins = [] \<or> outs = []"
  shows "verify w self report_file =
           (Inl (NVAutomationError ''Can't verify. Problem in input or output nv items.''), w)"
  using assms by (auto simp: verify_def)

section \<open>The published report\<close>

lemma publish_rows_result:
  "publish_rows V rs acc s = Inr (text, s') \<Longrightarrow>
     \<exists>rows. text = acc @ concat rows
       \<and> map (\<lambda>r. py_format V
                 [PyInt (nv_id (input_nv_item r)),
                  PyStr (nv_values (input_nv_item r)),
                  PyStr (nv_values (output_nv_item r)),
                  PyStr (nv_name (input_nv_item r)),
                  PyStr (nv_name (output_nv_item r)),
                  PyStr (nv_type (input_nv_item r)),
                  PyStr (if nv_type (input_nv_item r) \<noteq> ''NV'' then RESULT_SKIPPED
                         else if verification_result r = ''NG'' then RESULT_FAILED
                         else RESULT_PASSED)]) rs = map Inr rows"
proof (induction rs arbitrary: acc s)
  case Nil
  then show ?case by simp
next
  case (Cons r rs)
  let ?st = "if nv_type (input_nv_item r) \<noteq> ''NV'' then RESULT_SKIPPED
             else if verification_result r = ''NG'' then RESULT_FAILED else RESULT_PASSED"
  let ?args = "[PyInt (nv_id (input_nv_item r)),
                  PyStr (nv_values (input_nv_item r)),
                  PyStr (nv_values (output_nv_item r)),
                  PyStr (nv_name (input_nv_item r)),
                  PyStr (nv_name (output_nv_item r)),
                  PyStr (nv_type (input_nv_item r)),
                  PyStr ?st]"
  from Cons.prems obtain row s1 where
    row: "py_format V ?args = Inr row"
    and rest: "publish_rows V rs (acc @ row) s1 = Inr (text, s')"
    by (auto simp: Let_def NV_TYPE_NV_def RESULT_NG_def split: sum.splits if_splits)
  from Cons.IH[OF rest] obtain rows where
    "text = (acc @ row) @ concat rows" and
    m: "map (\<lambda>r. py_format V
                 [PyInt (nv_id (input_nv_item r)),
                  PyStr (nv_values (input_nv_item r)),
                  PyStr (nv_values (output_nv_item r)),
                  PyStr (nv_name (input_nv_item r)),
                  PyStr (nv_name (output_nv_item r)),
                  PyStr (nv_type (input_nv_item r)),
                  PyStr (if nv_type (input_nv_item r) \<noteq> ''NV'' then RESULT_SKIPPED
                         else if verification_result r = ''NG'' then RESULT_FAILED
                         else RESULT_PASSED)]) rs = map Inr rows"
    by blast
  then have "text = acc @ concat (row # rows)" by simp
  moreover have "map (\<lambda>r. py_format V
                 [PyInt (nv_id (input_nv_item r)),
                  PyStr (nv_values (input_nv_item r)),
                  PyStr (nv_values (output_nv_item r)),
                  PyStr (nv_name (input_nv_item r)),
                  PyStr (nv_name (output_nv_item r)),
                  PyStr (nv_type (input_nv_item r)),
                  PyStr (if nv_type (input_nv_item r) \<noteq> ''NV'' then RESULT_SKIPPED
                         else if verification_result r = ''NG'' then RESULT_FAILED
                         else RESULT_PASSED)]) (r # rs) = map Inr (row # rows)"
    using row m by simp
  ultimately show ?case by blast
qed

lemma publish_rows_summary:
  "publish_rows V rs acc s = Inr (text, s') \<Longrightarrow>
     s' = (if \<exists>r\<in>set rs. nv_type (input_nv_item r) = ''NV'' \<and> verification_result r = ''NG''
           then REPORT_SUMMARY_FAILED else s)"
proof (induction rs arbitrary: acc s)
  case Nil
  then show ?case by simp
next
  case (Cons r rs)
  let ?failed = "nv_type (input_nv_item r) = ''NV'' \<and> verification_result r = ''NG''"
  from Cons.prems obtain row where
    rest: "publish_rows V rs (acc @ row) (if ?failed then REPORT_SUMMARY_FAILED else s)
             = Inr (text, s')"
    by (auto simp: Let_def NV_TYPE_NV_def RESULT_NG_def split: sum.splits if_splits)
  from Cons.IH[OF rest] show ?case by auto
qed

lemma publish_success:
  assumes "publish_verification_result w rs f = (Inr v, w')"
  shows "\<exists>H V F report_values summary footer.
           read_report_template w REPORT_TEMPLATE_FILE = Inr (H, V, F)
         \<and> publish_rows V rs [] (if rs = [] then REPORT_SUMMARY_FAILED else REPORT_SUMMARY_PASSED)
             = Inr (report_values, summary)
         \<and> py_format F [PyStr summary] = Inr footer
         \<and> file_text w' f = Some (H @ report_values @ footer)"
  using assms
  by (auto simp: publish_verification_result_def Let_def write_text_def
      split: sum.splits if_splits prod.splits)

text \<open>
  C7. When \<open>publish_verification_result\<close> succeeds, the report file holds the header,
  one row per \<open>VerificationItem\<close> in order, and the footer; each row is the values
  template filled with the seven fields of the item, the last of which, the verification
  state, is SKIPPED when the type of the input item is not NV (whatever the result of the
  comparison), FAILED when the type is NV and the result is NG, and PASSED otherwise.
\<close>

theorem report_row_state:
  assumes "publish_verification_result w rs f = (Inr v, w')"
  shows "\<exists>H V F rows footer.
           read_report_template w REPORT_TEMPLATE_FILE = Inr (H, V, F)
         \<and> file_text w' f = Some (H @ concat rows @ footer)
         \<and> map (\<lambda>r. py_format V
                 [PyInt (nv_id (input_nv_item r)),
                  PyStr (nv_values (input_nv_item r)),
                  PyStr (nv_values (output_nv_item r)),
                  PyStr (nv_name (input_nv_item r)),
                  PyStr (nv_name (output_nv_item r)),
                  PyStr (nv_type (input_nv_item r)),
                  PyStr (if nv_type (input_nv_item r) \<noteq> ''NV'' then RESULT_SKIPPED
                         else if verification_result r = ''NG'' then RESULT_FAILED
                         else RESULT_PASSED)]) rs = map Inr rows"
proof -
  from publish_success[OF assms] obtain H V F report_values summary footer where
    t: "read_report_template w REPORT_TEMPLATE_FILE = Inr (H, V, F)"
    and p: "publish_rows V rs [] (if rs = [] then REPORT_SUMMARY_FAILED else REPORT_SUMMARY_PASSED)
             = Inr (report_values, summary)"
    and f: "file_text w' f = Some (H @ report_values @ footer)"
    by blast
  from publish_rows_result[OF p] t f show ?thesis by auto
qed

text \<open>
  C8. When \<open>publish_verification_result\<close> succeeds, the report file ends with the
  footer template filled with the summary, and the summary is FAILED when the list is
  empty or some item has an input item of type NV and the result NG, and PASSED in every
  other case; the two summaries are different strings.
\<close>

theorem report_summary:
  assumes "publish_verification_result w rs f = (Inr v, w')"
  shows "\<exists>H V F report_values summary footer.
           read_report_template w REPORT_TEMPLATE_FILE = Inr (H, V, F)
         \<and> file_text w' f = Some (H @ report_values @ footer)
         \<and> py_format F [PyStr summary] = Inr footer
         \<and> summary =
             (if rs = [] \<or> (\<exists>r\<in>set rs. nv_type (input_nv_item r) = ''NV''
                                       \<and> verification_result r = ''NG'')
              then REPORT_SUMMARY_FAILED else REPORT_SUMMARY_PASSED)
         \<and> REPORT_SUMMARY_FAILED \<noteq> REPORT_SUMMARY_PASSED"
proof -
  from publish_success[OF assms] obtain H V F report_values summary footer where
    t: "read_report_template w REPORT_TEMPLATE_FILE = Inr (H, V, F)"
    and p: "publish_rows V rs [] (if rs = [] then REPORT_SUMMARY_FAILED else REPORT_SUMMARY_PASSED)
             = Inr (report_values, summary)"
    and fo: "py_format F [PyStr summary] = Inr footer"
    and f: "file_text w' f = Some (H @ report_values @ footer)"
    by blast
  have ne: "REPORT_SUMMARY_FAILED \<noteq> REPORT_SUMMARY_PASSED"
    by (simp add: REPORT_SUMMARY_FAILED_def REPORT_SUMMARY_PASSED_def)
  have "summary =
             (if rs = [] \<or> (\<exists>r\<in>set rs. nv_type (input_nv_item r) = ''NV''
                                       \<and> verification_result r = ''NG'')
              then REPORT_SUMMARY_FAILED else REPORT_SUMMARY_PASSED)"
    using publish_rows_summary[OF p] by auto
  with t f fo ne show ?thesis by blast
qed

section \<open>The report template\<close>

lemma template_lines_bound:
  "template_lines ls (h, v, f) = (h', v', f') \<Longrightarrow>
     (h' \<noteq> None \<longleftrightarrow> h \<noteq> None \<or> (\<exists>l\<in>set ls. re_search ''%header%'' l))
   \<and> (v' \<noteq> None \<longleftrightarrow> v \<noteq> None \<or>
         (\<exists>l\<in>set ls. \<not> re_search ''%header%'' l \<and> re_search ''%values%'' l))
   \<and> (f' \<noteq> None \<longleftrightarrow> f \<noteq> None \<or>
         (\<exists>l\<in>set ls. \<not> re_search ''%header%'' l \<and> \<not> re_search ''%values%'' l
                      \<and> re_search ''%footer%'' l))"
proof (induction ls arbitrary: h v f)
  case Nil
  then show ?case by simp
next
  case (Cons l ls)
  show ?case
    using Cons.IH Cons.prems by (simp split: if_splits)
qed

text \<open>
  C10. \<open>_read_report_template\<close> returns only when the file can be read and each of
  the markers \<open>%header%\<close>, \<open>%values%\<close> and \<open>%footer%\<close> occurs on some line. When
  the file can be read and one of the markers occurs on no line, it fails with
  \<open>UnboundLocalError\<close>, which is not the domain error. The domain error is raised
  exactly when the file cannot be read.
\<close>

theorem template_markers:
  "(\<forall>r. read_report_template w f = Inr r \<longrightarrow>
        (\<exists>content. file_text w f = Some content
          \<and> (\<exists>l\<in>set (readlines content). re_search ''%header%'' l)
          \<and> (\<exists>l\<in>set (readlines content). re_search ''%values%'' l)
          \<and> (\<exists>l\<in>set (readlines content). re_search ''%footer%'' l)))
   \<and> (\<forall>content. file_text w f = Some content
          \<and> (\<exists>m\<in>{''%header%'', ''%values%'', ''%footer%''}.
                \<forall>l\<in>set (readlines content). \<not> re_search m l) \<longrightarrow>
        (\<exists>var. read_report_template w f = Inl (UnboundLocalError var)))
   \<and> ((\<exists>msg. read_report_template w f = Inl (NVAutomationError msg))
        \<longleftrightarrow> file_text w f = None)"
proof (cases "file_text w f")
  case None
  then show ?thesis by (simp add: read_report_template_def)
next
  case (Some content)
  obtain h v fo where tl: "template_lines (readlines content) (None, None, None) = (h, v, fo)"
    by (cases "template_lines (readlines content) (None, None, None)") auto
  note b = template_lines_bound[OF tl]
  show ?thesis
    using Some tl b
    by (auto simp: read_report_template_def split: option.splits)
qed

section \<open>Reading is all or nothing\<close>

lemma read_tags_those:
  "\<forall>t\<in>set tags. childNodes t \<noteq> [] \<Longrightarrow>
     read_tags tags acc =
       (case those (map nv_item_of tags) of
          Some items \<Rightarrow> Inr (acc @ items)
        | None \<Rightarrow> Inl (NVAutomationError ''Invalid NV item found''))"
proof (induction tags arbitrary: acc)
  case Nil
  then show ?case by simp
next
  case (Cons t tags)
  then show ?case
    by (auto simp: nv_item_of_def Let_def split: list.splits option.splits)
qed

lemma those_length: "those xs = Some ys \<Longrightarrow> length ys = length xs"
  by (induction xs arbitrary: ys) (auto split: option.splits)

lemma those_None: "None \<in> set xs \<Longrightarrow> those xs = None"
  by (induction xs) (auto split: option.splits)

text \<open>
  C5. For a parsed file in which every \<open>NvItem\<close> element has at least one
  child node, \<open>_read_nv_items\<close> either returns one record per \<open>NvItem\<close> element, in
  document order, or fails as a whole with \<open>NVAutomationError\<close>: no element is left
  out of a list that is returned. It fails when the id attribute of some element is
  not an integer (a missing id attribute reads as the empty string, which is not an
  integer) or when the first child of some element is an element, which has no text
  value. A missing name or calibrated attribute reads as the empty string and is not
  an error.
\<close>

theorem read_nv_items_all_or_nothing:
  assumes "parse_xml w f = Parsed d"
    and "\<forall>t\<in>set (getElementsByTagName ''NvItem'' d). childNodes t \<noteq> []"
  shows "read_nv_items w f =
           (case those (map nv_item_of (getElementsByTagName ''NvItem'' d)) of
              Some items \<Rightarrow> Inr items
            | None \<Rightarrow> Inl (NVAutomationError ''Invalid NV item found''))
       \<and> ((\<exists>t\<in>set (getElementsByTagName ''NvItem'' d).
               py_int (getAttribute t ''id'') = None
             \<or> (\<exists>i ta a cs rest. childNodes t = Element i ta a cs # rest)) \<longrightarrow>
            read_nv_items w f = Inl (NVAutomationError ''Invalid NV item found''))
       \<and> (\<forall>items. read_nv_items w f = Inr items \<longrightarrow>
            length items = length (getElementsByTagName ''NvItem'' d))"
proof -
  let ?tags = "getElementsByTagName ''NvItem'' d"
  have r: "read_nv_items w f =
           (case those (map nv_item_of ?tags) of
              Some items \<Rightarrow> Inr items
            | None \<Rightarrow> Inl (NVAutomationError ''Invalid NV item found''))"
    using assms by (simp add: read_nv_items_def read_tags_those split: option.splits)
  have bad: "those (map nv_item_of ?tags) = None"
    if "\<exists>t\<in>set ?tags. py_int (getAttribute t ''id'') = None
             \<or> (\<exists>i ta a cs rest. childNodes t = Element i ta a cs # rest)"
  proof -
    from that obtain t where "t \<in> set ?tags" and "nv_item_of t = None"
      by (auto simp: nv_item_of_def split: option.splits list.splits)
    then have "None \<in> set (map nv_item_of ?tags)" by force
    then show ?thesis by (rule those_None)
  qed
  show ?thesis
    using r bad by (auto split: option.splits dest: those_length)
qed

text \<open>
  An \<open>NvItem\<close> element without a child node is outside the statement above:
  \<open>tag.childNodes[0]\<close> fails before the \<open>try\<close> block is entered, and the
  \<open>IndexError\<close> leaves the method as it is.
\<close>

lemma read_tags_childless:
  "read_tags (Element i ''NvItem'' a [] # tags) acc = Inl IndexError"
  by simp

section \<open>Moving nodes between documents\<close>

lemma find_absent:
  "i \<notin> set (idents_of n) \<Longrightarrow> find_node i n = None"
  "i \<notin> set (idents ns) \<Longrightarrow> find_in i ns = None"
  by (induction i n and i ns rule: find_node_find_in.induct) auto

lemma remove_absent:
  "i \<notin> set (idents_of n) \<Longrightarrow> remove_node i n = n"
  "i \<notin> set (idents ns) \<Longrightarrow> remove_in i ns = ns"
proof (induction i n and i ns rule: remove_node_remove_in.induct)
  case (4 i n ns)
  then show ?case by (cases n) auto
qed auto

lemma find_ident:
  "find_node i n = Some e \<Longrightarrow> node_ident e = i \<and> set (idents_of e) \<subseteq> set (idents_of n)"
  "find_in i ns = Some e \<Longrightarrow> node_ident e = i \<and> set (idents_of e) \<subseteq> set (idents ns)"
  by (induction i n and i ns rule: find_node_find_in.induct)
     (auto split: if_splits option.splits)

lemma find_none:
  "find_node i n = None \<Longrightarrow> i \<notin> set (idents_of n)"
  "find_in i ns = None \<Longrightarrow> i \<notin> set (idents ns)"
  by (induction i n and i ns rule: find_node_find_in.induct)
     (auto split: if_splits option.splits)

lemma idents_remove_subset:
  "set (idents_of (remove_node i n)) \<subseteq> set (idents_of n)"
  "set (idents (remove_in i ns)) \<subseteq> set (idents ns)"
  by (induction i n and i ns rule: remove_node_remove_in.induct) auto

lemma idents_remove_distinct:
  "distinct (idents_of n) \<Longrightarrow> distinct (idents_of (remove_node i n))"
  "distinct (idents ns) \<Longrightarrow> distinct (idents (remove_in i ns))"
proof (induction i n and i ns rule: remove_node_remove_in.induct)
  case (2 i j t a cs)
  then show ?case using idents_remove_subset(2)[of i cs] by auto
next
  case (4 i n ns)
  then show ?case
    using idents_remove_subset(1)[of i n] idents_remove_subset(2)[of i ns] by auto
qed auto

lemma node_ident_in: "node_ident n \<in> set (idents_of n)"
  by (cases n) auto

lemma removed_absent:
  "node_ident n \<noteq> i \<Longrightarrow> i \<notin> set (idents_of (remove_node i n))"
  "i \<notin> set (idents (remove_in i ns))"
  by (induction i n and i ns rule: remove_node_remove_in.induct) auto

lemma elements_sub:
  "e \<in> set (elements_of name n) \<Longrightarrow>
     set (idents_of e) \<subseteq> set (idents_of n) \<and> (\<exists>j a cs. e = Element j name a cs)"
  "e \<in> set (getElementsByTagName name ns) \<Longrightarrow>
     set (idents_of e) \<subseteq> set (idents ns) \<and> (\<exists>j a cs. e = Element j name a cs)"
  by (induction name n and name ns rule: elements_of_getElementsByTagName.induct)
     (auto split: if_splits)

lemma elements_find:
  "distinct (idents_of n) \<Longrightarrow> e \<in> set (elements_of name n) \<Longrightarrow>
     find_node (node_ident e) n = Some e"
  "distinct (idents ns) \<Longrightarrow> e \<in> set (getElementsByTagName name ns) \<Longrightarrow>
     find_in (node_ident e) ns = Some e"
proof (induction name n and name ns rule: elements_of_getElementsByTagName.induct)
  case (2 name i t a cs)
  show ?case
  proof (cases "e = Element i t a cs")
    case True
    then show ?thesis by simp
  next
    case False
    with 2 have m: "e \<in> set (getElementsByTagName name cs)" by (auto split: if_splits)
    from elements_sub(2)[OF m] have "node_ident e \<in> set (idents cs)"
      using node_ident_in[of e] by auto
    with 2 have "node_ident e \<noteq> i" by auto
    with 2 m show ?thesis by auto
  qed
next
  case (4 name n ns)
  show ?case
  proof (cases "e \<in> set (elements_of name n)")
    case True
    with 4 show ?thesis by auto
  next
    case False
    with 4 have m: "e \<in> set (getElementsByTagName name ns)" by auto
    from elements_sub(2)[OF m] have "node_ident e \<in> set (idents ns)"
      using node_ident_in[of e] by auto
    with 4 have "node_ident e \<notin> set (idents_of n)" by auto
    then have "find_node (node_ident e) n = None" by (rule find_absent)
    with 4 m show ?thesis by auto
  qed
qed auto

lemma find_remove_disjoint:
  "distinct (idents_of n) \<Longrightarrow> find_node i n = Some e \<Longrightarrow> node_ident n \<noteq> i \<Longrightarrow>
     set (idents_of e) \<inter> set (idents_of (remove_node i n)) = {}"
  "distinct (idents ns) \<Longrightarrow> find_in i ns = Some e \<Longrightarrow>
     set (idents_of e) \<inter> set (idents (remove_in i ns)) = {}"
proof (induction i n and i ns rule: remove_node_remove_in.induct)
  case (2 i j t a cs)
  then have f: "find_in i cs = Some e" by simp
  from find_ident(2)[OF f] 2 have "j \<notin> set (idents_of e)" by auto
  with 2 f show ?case by auto
next
  case (4 i n ns)
  show ?case
  proof (cases "find_node i n")
    case None
    with 4 have f: "find_in i ns = Some e" by simp
    from find_none(1)[OF None] have a: "i \<notin> set (idents_of n)" .
    then have "node_ident n \<noteq> i" using node_ident_in[of n] by auto
    moreover have "remove_node i n = n" using a by (rule remove_absent)
    moreover have "set (idents_of e) \<inter> set (idents_of n) = {}"
      using find_ident(2)[OF f] 4(4) by auto
    ultimately show ?thesis using 4 f by auto
  next
    case (Some m)
    with 4 have em: "find_node i n = Some e" by simp
    have d: "set (idents_of e) \<inter> set (idents (remove_in i ns)) = {}"
      using find_ident(1)[OF em] idents_remove_subset(2)[of i ns] 4(4) by auto
    show ?thesis
    proof (cases "node_ident n = i")
      case True
      with d show ?thesis by simp
    next
      case False
      with 4 em d show ?thesis by auto
    qed
  qed
qed auto

lemma elements_idents_distinct:
  "distinct (idents_of n) \<Longrightarrow> distinct (map node_ident (elements_of name n))"
  "distinct (idents ns) \<Longrightarrow> distinct (map node_ident (getElementsByTagName name ns))"
proof (induction name n and name ns rule: elements_of_getElementsByTagName.induct)
  case (2 name i t a cs)
  have "\<And>e. e \<in> set (getElementsByTagName name cs) \<Longrightarrow> node_ident e \<in> set (idents cs)"
    using elements_sub(2) node_ident_in by blast
  with 2 show ?case by auto
next
  case (4 name n ns)
  have a: "\<And>e. e \<in> set (getElementsByTagName name ns) \<Longrightarrow> node_ident e \<in> set (idents ns)"
    using elements_sub(2) node_ident_in by blast
  have b: "\<And>e. e \<in> set (elements_of name n) \<Longrightarrow> node_ident e \<in> set (idents_of n)"
    using elements_sub(1) node_ident_in by blast
  from 4 a b show ?case by fastforce
qed auto

lemma unnested_iff:
  "unnested ns \<longleftrightarrow>
     (\<forall>e\<in>decls ns. getElementsByTagName ''DataType'' (childNodes e) = []
                  \<and> getElementsByTagName ''NvItem'' (childNodes e) = [])"
  by (auto simp: unnested_def decls_def list_all_iff)

lemma decls_Cons: "decls (n # ns) = decls [n] \<union> decls ns"
  by (auto simp: decls_def)

lemma decls_Element:
  "decls [Element j t a cs] =
     (if t = ''DataType'' \<or> t = ''NvItem'' then {Element j t a cs} else {}) \<union> decls cs"
  by (auto simp: decls_def)

lemma decls_idents: "e \<in> decls ns \<Longrightarrow> node_ident e \<in> set (idents ns)"
  using elements_sub(2) node_ident_in by (fastforce simp: decls_def)

lemma decls_find: "distinct (idents ns) \<Longrightarrow> e \<in> decls ns \<Longrightarrow> find_in (node_ident e) ns = Some e"
  using elements_find(2) by (auto simp: decls_def)

lemma find_self: "find_node (node_ident n) n = Some n"
  by (cases n) auto

lemma remove_elements:
  assumes nm: "name = ''DataType'' \<or> name = ''NvItem''"
  shows "unnested [n] \<Longrightarrow> distinct (idents_of n) \<Longrightarrow>
           (i \<in> set (idents_of n) \<longrightarrow> i \<in> node_ident ` decls [n]) \<Longrightarrow> node_ident n \<noteq> i \<Longrightarrow>
           elements_of name (remove_node i n) = filter (\<lambda>x. node_ident x \<noteq> i) (elements_of name n)"
    and "unnested ns \<Longrightarrow> distinct (idents ns) \<Longrightarrow>
           (i \<in> set (idents ns) \<longrightarrow> i \<in> node_ident ` decls ns) \<Longrightarrow>
           getElementsByTagName name (remove_in i ns) =
             filter (\<lambda>x. node_ident x \<noteq> i) (getElementsByTagName name ns)"
proof (induction i n and i ns rule: remove_node_remove_in.induct)
  case (1 i j d)
  then show ?case by simp
next
  case (2 i j t a cs)
  show ?case
  proof (cases "t = ''DataType'' \<or> t = ''NvItem''")
    case True
    with 2(2) have e: "getElementsByTagName ''DataType'' cs = []"
        "getElementsByTagName ''NvItem'' cs = []"
      by (auto simp: unnested_iff decls_Element)
    then have "decls cs = {}" by (simp add: decls_def)
    with 2(4,5) True have "i \<notin> set (idents cs)" by (auto simp: decls_Element)
    then have "remove_in i cs = cs" by (rule remove_absent)
    with 2(5) e nm show ?thesis by auto
  next
    case False
    with 2(2) have u: "unnested cs" by (auto simp: unnested_iff decls_Element)
    from 2(4,5) False have p: "i \<in> set (idents cs) \<longrightarrow> i \<in> node_ident ` decls cs"
      by (auto simp: decls_Element)
    from 2(3) have d: "distinct (idents cs)" by simp
    from 2(1)[OF u d p] False nm show ?thesis by auto
  qed
next
  case (3 i)
  then show ?case by simp
next
  case (4 i n ns)
  from 4(4) have un: "unnested [n]" and uns: "unnested ns"
    by (auto simp: unnested_iff decls_Cons[of n ns])
  from 4(5) have dn: "distinct (idents_of n)" and dns: "distinct (idents ns)"
    and dj: "set (idents_of n) \<inter> set (idents ns) = {}" by auto
  have pn: "i \<in> set (idents_of n) \<longrightarrow> i \<in> node_ident ` decls [n]"
  proof
    assume a: "i \<in> set (idents_of n)"
    with 4(6) have "i \<in> node_ident ` decls (n # ns)" by simp
    then obtain e where e: "e \<in> decls (n # ns)" "node_ident e = i" by auto
    show "i \<in> node_ident ` decls [n]"
    proof (cases "e \<in> decls [n]")
      case True
      with e show ?thesis by auto
    next
      case False
      with e have "e \<in> decls ns" by (auto simp: decls_Cons[of n ns])
      from decls_idents[OF this] e a dj show ?thesis by auto
    qed
  qed
  have pns: "i \<in> set (idents ns) \<longrightarrow> i \<in> node_ident ` decls ns"
  proof
    assume a: "i \<in> set (idents ns)"
    with 4(6) have "i \<in> node_ident ` decls (n # ns)" by simp
    then obtain e where e: "e \<in> decls (n # ns)" "node_ident e = i" by auto
    show "i \<in> node_ident ` decls ns"
    proof (cases "e \<in> decls ns")
      case True
      with e show ?thesis by auto
    next
      case False
      with e have "e \<in> decls [n]" by (auto simp: decls_Cons[of n ns])
      from decls_idents[OF this] e a dj show ?thesis by auto
    qed
  qed
  show ?case
  proof (cases "node_ident n = i")
    case True
    have "i \<in> set (idents_of n)" using True node_ident_in[of n] by auto
    with pn obtain e where e: "e \<in> decls [n]" "node_ident e = i" by auto
    from decls_find[OF _ e(1)] dn e(2) have "find_in i [n] = Some e" by simp
    moreover have "find_in i [n] = Some n" using find_self[of n] True by simp
    ultimately have "e = n" by simp
    with e un have c: "getElementsByTagName ''DataType'' (childNodes n) = []"
      "getElementsByTagName ''NvItem'' (childNodes n) = []"
      by (auto simp: unnested_iff)
    have z: "filter (\<lambda>x. node_ident x \<noteq> i) (elements_of name n) = []"
      using c True nm by (cases n) auto
    from 4(1)[OF True uns dns pns] True z show ?thesis by simp
  next
    case False
    from 4(2)[OF False un dn pn False] 4(3)[OF False uns dns pns] False
    show ?thesis by simp
  qed
qed

lemma idents_append: "idents (xs @ ys) = idents xs @ idents ys"
  by (induction xs) auto

lemma find_in_append:
  "find_in i (xs @ ys) = (case find_in i xs of Some m \<Rightarrow> Some m | None \<Rightarrow> find_in i ys)"
  by (induction xs) (auto split: option.splits)

lemma remove_in_append: "remove_in i (xs @ ys) = remove_in i xs @ remove_in i ys"
  by (induction xs) auto

lemma decls_remove:
  assumes "unnested ns" "distinct (idents ns)" "e \<in> decls ns"
  shows "getElementsByTagName ''DataType'' (remove_in (node_ident e) ns) =
           filter (\<lambda>x. node_ident x \<noteq> node_ident e) (getElementsByTagName ''DataType'' ns)"
    and "getElementsByTagName ''NvItem'' (remove_in (node_ident e) ns) =
           filter (\<lambda>x. node_ident x \<noteq> node_ident e) (getElementsByTagName ''NvItem'' ns)"
    and "unnested (remove_in (node_ident e) ns)"
proof -
  have p: "node_ident e \<in> set (idents ns) \<longrightarrow> node_ident e \<in> node_ident ` decls ns"
    using assms(3) by auto
  show a: "getElementsByTagName ''DataType'' (remove_in (node_ident e) ns) =
           filter (\<lambda>x. node_ident x \<noteq> node_ident e) (getElementsByTagName ''DataType'' ns)"
    using remove_elements(2)[OF _ assms(1,2) p, of "''DataType''"] by simp
  show b: "getElementsByTagName ''NvItem'' (remove_in (node_ident e) ns) =
           filter (\<lambda>x. node_ident x \<noteq> node_ident e) (getElementsByTagName ''NvItem'' ns)"
    using remove_elements(2)[OF _ assms(1,2) p, of "''NvItem''"] by simp
  show "unnested (remove_in (node_ident e) ns)"
    using assms(1) by (auto simp: unnested_iff decls_def a b)
qed

lemma same_ident_same_node:
  assumes "distinct (idents ns)" "e \<in> decls ns" "e' \<in> decls ns" "node_ident e = node_ident e'"
  shows "e = e'"
proof -
  have "find_in (node_ident e) ns = Some e" using decls_find[OF assms(1,2)] .
  moreover have "find_in (node_ident e) ns = Some e'"
    using decls_find[OF assms(1,3)] by (simp only: assms(4))
  ultimately have "Some e = Some e'" by (rule trans[OF sym])
  then show ?thesis by (simp only: option.inject)
qed

lemma appendChild_moves:
  assumes "distinct (idents dm)" "tag \<in> decls dm"
  shows "appendChild tag (dm, rc) = (remove_in (node_ident tag) dm, rc @ [tag])"
  using decls_find[OF assms] by (simp add: appendChild_def)

lemma append_data_types_result:
  "unnested dm \<Longrightarrow> distinct (idents dm) \<Longrightarrow> set (idents rc) \<inter> set (idents dm) = {} \<Longrightarrow>
   getElementsByTagName ''DataType'' dm = tags \<Longrightarrow>
     \<exists>dm'. append_data_types tags (dm, rc) = (dm', rc @ tags)
        \<and> getElementsByTagName ''NvItem'' dm' = getElementsByTagName ''NvItem'' dm
        \<and> unnested dm' \<and> distinct (idents dm')
        \<and> set (idents (rc @ tags)) \<inter> set (idents dm') = {}"
proof (induction tags arbitrary: dm rc)
  case Nil
  then show ?case by simp
next
  case (Cons tag rest)
  let ?i = "node_ident tag"
  let ?dm = "remove_in ?i dm"
  have tg: "tag \<in> decls dm" using Cons.prems(4) by (auto simp: decls_def)
  have mv: "appendChild tag (dm, rc) = (?dm, rc @ [tag])"
    using appendChild_moves[OF Cons.prems(2) tg] .
  have dd: "distinct (map node_ident (tag # rest))"
    using elements_idents_distinct(2)[OF Cons.prems(2), of "''DataType''"] Cons.prems(4) by simp
  have ne: "node_ident x \<noteq> ?i" if "x \<in> set rest" for x
  proof
    assume "node_ident x = ?i"
    with that have "?i \<in> node_ident ` set rest" by (metis imageI)
    with dd show False by simp
  qed
  have dt: "getElementsByTagName ''DataType'' ?dm = rest"
    using decls_remove(1)[OF Cons.prems(1,2) tg] Cons.prems(4) ne
    by (simp add: filter_id_conv)
  have nv: "getElementsByTagName ''NvItem'' ?dm = getElementsByTagName ''NvItem'' dm"
  proof -
    have "\<And>x. x \<in> set (getElementsByTagName ''NvItem'' dm) \<Longrightarrow> node_ident x \<noteq> ?i"
    proof
      fix x assume x: "x \<in> set (getElementsByTagName ''NvItem'' dm)" and eq: "node_ident x = ?i"
      then have "x \<in> decls dm" by (simp add: decls_def)
      from same_ident_same_node[OF Cons.prems(2) this tg eq] have "x = tag" .
      moreover from elements_sub(2)[OF x] obtain j a cs where "x = Element j ''NvItem'' a cs"
        by blast
      moreover from Cons.prems(4) have "tag \<in> set (getElementsByTagName ''DataType'' dm)" by simp
      from elements_sub(2)[OF this] obtain j' a' cs' where "tag = Element j' ''DataType'' a' cs'"
        by blast
      ultimately show False by simp
    qed
    then show ?thesis
      using decls_remove(2)[OF Cons.prems(1,2) tg] by (simp add: filter_id_conv)
  qed
  have un: "unnested ?dm" using decls_remove(3)[OF Cons.prems(1,2) tg] .
  have di: "distinct (idents ?dm)" using idents_remove_distinct(2)[OF Cons.prems(2)] .
  have dj: "set (idents (rc @ [tag])) \<inter> set (idents ?dm) = {}"
    using find_remove_disjoint(2)[OF Cons.prems(2) decls_find[OF Cons.prems(2) tg]]
      idents_remove_subset(2)[of ?i dm] Cons.prems(3)
    by (auto simp: idents_append)
  from Cons.IH[OF un di dj dt] nv mv show ?case by auto
qed

lemma append_again:
  assumes "node_ident tag \<notin> set (idents dm)" "node_ident tag \<notin> set (idents rc)"
  shows "append_if_listed tag ids (dm, rc @ [tag]) = Inr st \<Longrightarrow> st = (dm, rc @ [tag])"
proof (induction ids)
  case Nil
  then show ?case by simp
next
  case (Cons k ids)
  have "appendChild tag (dm, rc @ [tag]) = (dm, rc @ [tag])"
    using find_absent(2)[OF assms(1)] find_absent(2)[OF assms(2)] remove_absent(2)[OF assms(2)]
      find_self[of tag]
    by (simp add: appendChild_def find_in_append remove_in_append)
  with Cons show ?case by (auto split: option.splits if_splits)
qed

lemma append_if_listed_result:
  assumes "distinct (idents dm)" "tag \<in> decls dm" "set (idents rc) \<inter> set (idents dm) = {}"
  shows "append_if_listed tag ids (dm, rc) = Inr st \<Longrightarrow>
           st = (if listed ids tag then (remove_in (node_ident tag) dm, rc @ [tag]) else (dm, rc))"
proof (induction ids)
  case Nil
  then show ?case by (simp add: listed_def split: option.splits)
next
  case (Cons k ids)
  from Cons.prems obtain tag_id where p: "py_int (getAttribute tag ''id'') = Some tag_id"
    by (auto split: option.splits)
  show ?case
  proof (cases "k = tag_id")
    case True
    have a: "node_ident tag \<notin> set (idents (remove_in (node_ident tag) dm))"
      by (rule removed_absent)
    have b: "node_ident tag \<notin> set (idents rc)"
      using decls_idents[OF assms(2)] assms(3) by auto
    from Cons.prems p True appendChild_moves[OF assms(1,2), of rc]
    have "append_if_listed tag ids (remove_in (node_ident tag) dm, rc @ [tag]) = Inr st" by simp
    from append_again[OF a b this] p True show ?thesis by (simp add: listed_def)
  next
    case False
    with Cons.prems p have "append_if_listed tag ids (dm, rc) = Inr st" by simp
    from Cons.IH[OF this] p False show ?thesis by (simp add: listed_def)
  qed
qed

lemma append_nv_items_result:
  "unnested dm \<Longrightarrow> distinct (idents dm) \<Longrightarrow> set (idents rc) \<inter> set (idents dm) = {} \<Longrightarrow>
   set tags \<subseteq> set (getElementsByTagName ''NvItem'' dm) \<Longrightarrow> distinct (map node_ident tags) \<Longrightarrow>
   append_nv_items tags ids (dm, rc) = Inr st \<Longrightarrow> snd st = rc @ filter (listed ids) tags"
proof (induction tags arbitrary: dm rc)
  case Nil
  then show ?case by auto
next
  case (Cons tag rest)
  let ?i = "node_ident tag"
  let ?dm = "remove_in ?i dm"
  have tg: "tag \<in> decls dm" using Cons.prems(4) by (auto simp: decls_def)
  from Cons.prems(6) obtain st1 where
    s1: "append_if_listed tag ids (dm, rc) = Inr st1"
    and s2: "append_nv_items rest ids st1 = Inr st"
    by (auto split: sum.splits)
  note r = append_if_listed_result[OF Cons.prems(2) tg Cons.prems(3) s1]
  show ?case
  proof (cases "listed ids tag")
    case True
    with r have st1: "st1 = (?dm, rc @ [tag])" by simp
    have un: "unnested ?dm" using decls_remove(3)[OF Cons.prems(1,2) tg] .
    have di: "distinct (idents ?dm)" using idents_remove_distinct(2)[OF Cons.prems(2)] .
    have dj: "set (idents (rc @ [tag])) \<inter> set (idents ?dm) = {}"
      using find_remove_disjoint(2)[OF Cons.prems(2) decls_find[OF Cons.prems(2) tg]]
        idents_remove_subset(2)[of ?i dm] Cons.prems(3)
      by (auto simp: idents_append)
    have ne: "node_ident x \<noteq> ?i" if "x \<in> set rest" for x
    proof
      assume "node_ident x = ?i"
      with that have "?i \<in> node_ident ` set rest" by (metis imageI)
      with Cons.prems(5) show False by simp
    qed
    have sub: "set rest \<subseteq> set (getElementsByTagName ''NvItem'' ?dm)"
      using decls_remove(2)[OF Cons.prems(1,2) tg] Cons.prems(4) ne by auto
    have dr: "distinct (map node_ident rest)" using Cons.prems(5) by simp
    from Cons.IH[OF un di dj sub dr] s2 st1 True show ?thesis by simp
  next
    case False
    with r have st1: "st1 = (dm, rc)" by simp
    have sub: "set rest \<subseteq> set (getElementsByTagName ''NvItem'' dm)" using Cons.prems(4) by simp
    have dr: "distinct (map node_ident rest)" using Cons.prems(5) by simp
    from Cons.IH[OF Cons.prems(1,2,3) sub dr] s2 st1 False show ?thesis by simp
  qed
qed

lemma elements_of_flat:
  "\<forall>e\<in>set xs. \<exists>j a cs. e = Element j tg a cs \<and> getElementsByTagName name cs = [] \<Longrightarrow>
     getElementsByTagName name xs = (if tg = name then xs else [])"
  by (induction xs) auto


section \<open>The trimmed definition file\<close>

text \<open>
  C3. For a master definition document in which no \<open>DataType\<close> or \<open>NvItem\<close>
  element lies inside another \<open>DataType\<close> or \<open>NvItem\<close> element (the identities
  of its nodes being distinct, as those of the objects of a parsed document are) and for
  every input id list: when \<open>create_new_definition_file\<close> succeeds, the file it
  wrote is an \<open>NvDefinition\<close> root whose children are all the \<open>DataType\<close>
  elements of the master document, in document order, followed by the \<open>NvItem\<close>
  elements of the master document whose id attribute, parsed as an integer, is one of
  the input ids, in document order. These are all the \<open>DataType\<close> and \<open>NvItem\<close>
  elements of the written file, and none occurs twice.
\<close>

theorem trimmed_definition_contents:
  assumes "read_input_file w self None = Inr ids"
    and "parse_xml w (definition_file self) = Parsed d"
    and "distinct (idents d)"
    and "unnested d"
    and "create_new_definition_file w self = (Inr v, w')"
  shows "parse_xml w' (new_def_file self) =
           Parsed [Element (fresh_ident d) ''NvDefinition'' []
                     (getElementsByTagName ''DataType'' d
                        @ filter (listed ids) (getElementsByTagName ''NvItem'' d))]
       \<and> getElementsByTagName ''DataType''
             (getElementsByTagName ''DataType'' d
                @ filter (listed ids) (getElementsByTagName ''NvItem'' d))
           = getElementsByTagName ''DataType'' d
       \<and> getElementsByTagName ''NvItem''
             (getElementsByTagName ''DataType'' d
                @ filter (listed ids) (getElementsByTagName ''NvItem'' d))
           = filter (listed ids) (getElementsByTagName ''NvItem'' d)
       \<and> distinct (map node_ident
             (getElementsByTagName ''DataType'' d
                @ filter (listed ids) (getElementsByTagName ''NvItem'' d)))"
proof -
  let ?DT = "getElementsByTagName ''DataType'' d"
  let ?NV = "getElementsByTagName ''NvItem'' d"
  from append_data_types_result[OF assms(4,3), of "[]" ?DT]
  obtain dm' where
    p1: "append_data_types ?DT (d, []) = (dm', ?DT)"
    and nv: "getElementsByTagName ''NvItem'' dm' = ?NV"
    and un: "unnested dm'" and di: "distinct (idents dm')"
    and dj: "set (idents ?DT) \<inter> set (idents dm') = {}"
    by auto
  from assms(5,1,2) p1 nv obtain st where
    p2: "append_nv_items ?NV ids (dm', ?DT) = Inr st"
    and wr: "w' = write_xml w (new_def_file self)
                    [Element (fresh_ident d) ''NvDefinition'' [] (snd st)]"
    by (auto simp: create_new_definition_file_def Let_def
        split: sum.splits if_splits exn.splits)
  have dn: "distinct (map node_ident ?NV)"
    using elements_idents_distinct(2)[OF assms(3)] .
  from append_nv_items_result[OF un di dj _ _ p2] nv dn
  have st: "snd st = ?DT @ filter (listed ids) ?NV" by simp
  have a: "parse_xml w' (new_def_file self) =
           Parsed [Element (fresh_ident d) ''NvDefinition'' [] (?DT @ filter (listed ids) ?NV)]"
    using wr st by (simp add: write_xml_def)
  have fdt: "\<forall>e\<in>set ?DT. \<exists>j a cs. e = Element j ''DataType'' a cs
               \<and> getElementsByTagName name cs = []"
    if "name = ''DataType'' \<or> name = ''NvItem''" for name
  proof
    fix e assume e: "e \<in> set ?DT"
    from elements_sub(2)[OF e] obtain j a cs where "e = Element j ''DataType'' a cs" by blast
    moreover from e assms(4) have "getElementsByTagName ''DataType'' (childNodes e) = []
        \<and> getElementsByTagName ''NvItem'' (childNodes e) = []"
      by (auto simp: unnested_iff decls_def)
    ultimately show "\<exists>j a cs. e = Element j ''DataType'' a cs
               \<and> getElementsByTagName name cs = []" using that by auto
  qed
  have fnv: "\<forall>e\<in>set (filter (listed ids) ?NV). \<exists>j a cs. e = Element j ''NvItem'' a cs
               \<and> getElementsByTagName name cs = []"
    if "name = ''DataType'' \<or> name = ''NvItem''" for name
  proof
    fix e assume "e \<in> set (filter (listed ids) ?NV)"
    then have e: "e \<in> set ?NV" by simp
    from elements_sub(2)[OF e] obtain j a cs where "e = Element j ''NvItem'' a cs" by blast
    moreover from e assms(4) have "getElementsByTagName ''DataType'' (childNodes e) = []
        \<and> getElementsByTagName ''NvItem'' (childNodes e) = []"
      by (auto simp: unnested_iff decls_def)
    ultimately show "\<exists>j a cs. e = Element j ''NvItem'' a cs
               \<and> getElementsByTagName name cs = []" using that by auto
  qed
  have app: "getElementsByTagName name (xs @ ys) =
               getElementsByTagName name xs @ getElementsByTagName name ys" for name xs ys
    by (induction xs) auto
  have b: "getElementsByTagName ''DataType'' (?DT @ filter (listed ids) ?NV) = ?DT"
    using elements_of_flat[OF fdt, of "''DataType''"] elements_of_flat[OF fnv, of "''DataType''"]
    by (simp add: app)
  have c: "getElementsByTagName ''NvItem'' (?DT @ filter (listed ids) ?NV)
             = filter (listed ids) ?NV"
    using elements_of_flat[OF fdt, of "''NvItem''"] elements_of_flat[OF fnv, of "''NvItem''"]
    by (simp add: app)
  have ddt: "distinct (map node_ident ?DT)"
    using elements_idents_distinct(2)[OF assms(3)] .
  have cross: "node_ident x \<noteq> node_ident y" if "x \<in> set ?DT" "y \<in> set ?NV" for x y
  proof
    assume eq: "node_ident x = node_ident y"
    from that have "x \<in> decls d" "y \<in> decls d" by (auto simp: decls_def)
    from same_ident_same_node[OF assms(3) this eq] have "x = y" .
    moreover from elements_sub(2)[OF that(1)] obtain j a cs where "x = Element j ''DataType'' a cs"
      by blast
    moreover from elements_sub(2)[OF that(2)] obtain j' a' cs' where "y = Element j' ''NvItem'' a' cs'"
      by blast
    ultimately show False by simp
  qed
  have e: "distinct (map node_ident (?DT @ filter (listed ids) ?NV))"
    using ddt dn cross by (auto simp: distinct_map_filter)
  from a b c e show ?thesis by simp
qed

section \<open>The sample run against each property\<close>

lemmas result_defs = RESULT_OK_def RESULT_NG_def RESULT_PASSED_def RESULT_FAILED_def
  RESULT_SKIPPED_def REPORT_SUMMARY_PASSED_def REPORT_SUMMARY_FAILED_def

lemma nat_str_digit: "n < 10 \<Longrightarrow> nat_str n = [digit_char n]"
  by (simp add: nat_str.simps)

lemma sample_writable_all: "writable sample_world path"
  by (simp add: sample_world_def sample_writable_def)

lemma sample_nonempty: "sample_results \<noteq> []"
  by (simp add: sample_results_def)

lemma sample_rows:
  "publish_rows ''<tr>%d|%s|%s|%s|%s|%s|%s</tr>'' sample_results [] REPORT_SUMMARY_PASSED =
     Inr (''<tr>1|5|5|a|a|NV|<span style='color:green;'>PASSED</span></tr>'' @
          ''<tr>2|3|9|b|b|TA|<span style='color:gray;'>SKIPPED</span></tr>'' @
          ''<tr>3|7||c||NV|<span style='color:red;'>FAILED</span></tr>'',
          REPORT_SUMMARY_FAILED)"
  by (simp add: sample_results_def VerificationItem_def NVItem_def result_defs nv_type_defs
      int_str_def digit_char_def nat_str_digit)

lemma sample_publish:
  "publish_verification_result sample_world sample_results ''report.html'' =
     (Inr PyNone,
      write_text (write_text sample_world ''report.html'' []) ''report.html'' sample_report)"
  by (simp add: publish_verification_result_def sample_template_read sample_writable_all
      sample_nonempty sample_rows sample_report_def REPORT_SUMMARY_FAILED_def)

theorem update_nv_items_frame_witness:
  "read_nv_items sample_world (new_def_file sample_self) = Inr sample_def_items
   \<and> (\<exists>out. update_nv_items_with_def_file sample_world sample_self sample_read_items = Inr out
           \<and> length out = length sample_read_items
           \<and> (\<forall>i<length sample_read_items.
                 nv_id (out ! i) = nv_id (sample_read_items ! i)
               \<and> nv_name (out ! i) = nv_name (sample_read_items ! i)
               \<and> nv_values (out ! i) = nv_values (sample_read_items ! i)
               \<and> (case find (\<lambda>d. nv_id d = nv_id (sample_read_items ! i)
                                \<and> nv_name d = nv_name (sample_read_items ! i)) sample_def_items of
                     Some d \<Rightarrow> nv_type (out ! i) = nv_type d
                   | None \<Rightarrow> out ! i = sample_read_items ! i)))"
proof -
  have h: "read_nv_items sample_world (new_def_file sample_self) = Inr sample_def_items"
    using sample_read_def by (simp add: sample_self_def)
  show ?thesis
    using h update_nv_items_frame[OF h, of sample_read_items] by simp
qed

lemma sample_hyps:
  "read_nv_items sample_world (input_file sample_self) = Inr sample_read_items"
  "update_nv_items_with_def_file sample_world sample_self sample_read_items = Inr sample_input_items"
  "read_nv_items sample_world (out_file sample_self) = Inr sample_device_items"
  using sample_read_input sample_read_device sample_update by (simp_all add: sample_self_def)

theorem verify_compares_witness:
  "read_nv_items sample_world (input_file sample_self) = Inr sample_read_items
   \<and> update_nv_items_with_def_file sample_world sample_self sample_read_items
       = Inr sample_input_items
   \<and> read_nv_items sample_world (out_file sample_self) = Inr sample_device_items
   \<and> sample_input_items \<noteq> [] \<and> sample_device_items \<noteq> []
   \<and> verify sample_world sample_self None = (Inr sample_results, sample_world)"
proof -
  have ne: "sample_input_items \<noteq> []" "sample_device_items \<noteq> []"
    by (simp_all add: sample_input_items_def sample_device_items_def)
  from verify_compares[OF sample_hyps ne] obtain rs where
    v: "verify sample_world sample_self None = (Inr rs, sample_world)" by blast
  have "verify sample_world sample_self None = (Inr sample_results, sample_world)"
    using sample_hyps
    by (simp add: verify_def sample_input_items_def sample_device_items_def sample_results_def
        verify_item_def NVItem_def VerificationItem_def result_defs nv_type_defs)
  with v sample_hyps ne show ?thesis by simp
qed


lemma silent_hyps:
  "read_nv_items silent_world (input_file sample_self) = Inr sample_read_items"
  "update_nv_items_with_def_file silent_world sample_self sample_read_items = Inr sample_input_items"
  "read_nv_items silent_world (out_file sample_self) = Inr []"
  using sample_hyps
  by (simp_all add: read_nv_items_def update_nv_items_with_def_file_def silent_world_def
      sample_world_def silent_parse_def sample_self_def)

theorem verify_empty_fails_witness:
  "read_nv_items silent_world (input_file sample_self) = Inr sample_read_items
   \<and> update_nv_items_with_def_file silent_world sample_self sample_read_items
       = Inr sample_input_items
   \<and> read_nv_items silent_world (out_file sample_self) = Inr []
   \<and> verify silent_world sample_self (Some ''report.html'') =
       (Inl (NVAutomationError ''Can't verify. Problem in input or output nv items.''),
        silent_world)"
proof -
  have e: "sample_input_items = [] \<or> ([]::nvitem list) = []" by simp
  show ?thesis
    using silent_hyps verify_empty_fails[OF silent_hyps e, of "Some ''report.html''"] by simp
qed

theorem report_row_state_witness:
  "publish_verification_result sample_world sample_results ''report.html'' =
     (Inr PyNone,
      write_text (write_text sample_world ''report.html'' []) ''report.html'' sample_report)
   \<and> (\<exists>H V F rows footer.
           read_report_template sample_world REPORT_TEMPLATE_FILE = Inr (H, V, F)
         \<and> file_text
              (write_text (write_text sample_world ''report.html'' []) ''report.html''
                 sample_report) ''report.html''
             = Some (H @ concat rows @ footer)
         \<and> map (\<lambda>r. py_format V
                 [PyInt (nv_id (input_nv_item r)),
                  PyStr (nv_values (input_nv_item r)),
                  PyStr (nv_values (output_nv_item r)),
                  PyStr (nv_name (input_nv_item r)),
                  PyStr (nv_name (output_nv_item r)),
                  PyStr (nv_type (input_nv_item r)),
                  PyStr (if nv_type (input_nv_item r) \<noteq> ''NV'' then RESULT_SKIPPED
                         else if verification_result r = ''NG'' then RESULT_FAILED
                         else RESULT_PASSED)]) sample_results = map Inr rows)"
  using sample_publish report_row_state[OF sample_publish] by simp

theorem report_summary_witness:
  "publish_verification_result sample_world sample_results ''report.html'' =
     (Inr PyNone,
      write_text (write_text sample_world ''report.html'' []) ''report.html'' sample_report)
   \<and> (\<exists>H V F report_values summary footer.
           read_report_template sample_world REPORT_TEMPLATE_FILE = Inr (H, V, F)
         \<and> file_text
              (write_text (write_text sample_world ''report.html'' []) ''report.html''
                 sample_report) ''report.html''
             = Some (H @ report_values @ footer)
         \<and> py_format F [PyStr summary] = Inr footer
         \<and> summary =
             (if sample_results = []
                 \<or> (\<exists>r\<in>set sample_results. nv_type (input_nv_item r) = ''NV''
                                       \<and> verification_result r = ''NG'')
              then REPORT_SUMMARY_FAILED else REPORT_SUMMARY_PASSED)
         \<and> REPORT_SUMMARY_FAILED \<noteq> REPORT_SUMMARY_PASSED)"
  using sample_publish report_summary[OF sample_publish] by simp

lemma footless_read:
  "read_report_template footless_world REPORT_TEMPLATE_FILE =
     Inl (UnboundLocalError ''report_footer'')"
  by (simp add: read_report_template_def footless_world_def footless_text_def
      footless_template_def starts_with_def strip_def isspace_def)

theorem template_markers_witness:
  "read_report_template sample_world REPORT_TEMPLATE_FILE =
     Inr (''<table>'', ''<tr>%d|%s|%s|%s|%s|%s|%s</tr>'', ''</table>%s'')
   \<and> (\<exists>content. file_text sample_world REPORT_TEMPLATE_FILE = Some content
          \<and> (\<exists>l\<in>set (readlines content). re_search ''%header%'' l)
          \<and> (\<exists>l\<in>set (readlines content). re_search ''%values%'' l)
          \<and> (\<exists>l\<in>set (readlines content). re_search ''%footer%'' l))
   \<and> file_text footless_world REPORT_TEMPLATE_FILE = Some footless_template
   \<and> (\<exists>m\<in>{''%header%'', ''%values%'', ''%footer%''}.
          \<forall>l\<in>set (readlines footless_template). \<not> re_search m l)
   \<and> (\<exists>var. read_report_template footless_world REPORT_TEMPLATE_FILE
                = Inl (UnboundLocalError var))"
proof -
  have a: "read_report_template sample_world REPORT_TEMPLATE_FILE =
     Inr (''<table>'', ''<tr>%d|%s|%s|%s|%s|%s|%s</tr>'', ''</table>%s'')"
    by (rule sample_template_read)
  have b: "file_text footless_world REPORT_TEMPLATE_FILE = Some footless_template"
    by (simp add: footless_world_def footless_text_def)
  have c: "\<exists>m\<in>{''%header%'', ''%values%'', ''%footer%''}.
          \<forall>l\<in>set (readlines footless_template). \<not> re_search m l"
    by (simp add: footless_template_def starts_with_def)
  from template_markers[of sample_world REPORT_TEMPLATE_FILE] a
  have d: "\<exists>content. file_text sample_world REPORT_TEMPLATE_FILE = Some content
          \<and> (\<exists>l\<in>set (readlines content). re_search ''%header%'' l)
          \<and> (\<exists>l\<in>set (readlines content). re_search ''%values%'' l)
          \<and> (\<exists>l\<in>set (readlines content). re_search ''%footer%'' l)"
    by blast
  from template_markers[of footless_world REPORT_TEMPLATE_FILE] b c
  have e: "\<exists>var. read_report_template footless_world REPORT_TEMPLATE_FILE
                = Inl (UnboundLocalError var)"
    by blast
  from a b c d e show ?thesis by blast
qed

text \<open>
  An \<open>NvItem\<close> element that has an id and a value and neither a name nor a
  calibrated attribute is read without error: the record has the empty name and the
  type NV.
\<close>

theorem read_nv_items_missing_attribute_counterexample:
  "getElementsByTagName ''NvItem'' bare_input =
     [Element 1 ''NvItem'' [(''id'', ''5'')] [CharacterData 2 ''1,2'']]
   \<and> parse_xml bare_world ''input.xml'' = Parsed bare_input
   \<and> read_nv_items bare_world ''input.xml'' =
       Inr [\<lparr>nv_id = 5, nv_name = [], nv_values = ''1,2'', nv_type = ''NV''\<rparr>]"
  by (simp add: read_nv_items_def bare_world_def bare_parse_def bare_input_def str_defs
      get_nv_type_def nv_type_defs NVItem_def)

lemma sample_tags_have_children:
  "\<forall>t\<in>set (getElementsByTagName ''NvItem'' sample_input). childNodes t \<noteq> []"
  by (simp add: sample_input_def)

lemma bad_id_tags_have_children:
  "\<forall>t\<in>set (getElementsByTagName ''NvItem'' bad_id_input). childNodes t \<noteq> []"
  by (simp add: bad_id_input_def)

theorem read_nv_items_all_or_nothing_witness:
  "parse_xml sample_world ''input.xml'' = Parsed sample_input
   \<and> list_all (\<lambda>t. childNodes t \<noteq> []) (getElementsByTagName ''NvItem'' sample_input)
   \<and> read_nv_items sample_world ''input.xml'' = Inr sample_read_items
   \<and> length sample_read_items = length (getElementsByTagName ''NvItem'' sample_input)
   \<and> parse_xml bad_id_world ''input.xml'' = Parsed bad_id_input
   \<and> list_all (\<lambda>t. childNodes t \<noteq> []) (getElementsByTagName ''NvItem'' bad_id_input)
   \<and> (\<exists>t\<in>set (getElementsByTagName ''NvItem'' bad_id_input).
          py_int (getAttribute t ''id'') = None)
   \<and> read_nv_items bad_id_world ''input.xml'' = Inl (NVAutomationError ''Invalid NV item found'')"
proof -
  have p1: "parse_xml sample_world ''input.xml'' = Parsed sample_input"
    by (simp add: sample_world_def sample_parse_def)
  have p2: "parse_xml bad_id_world ''input.xml'' = Parsed bad_id_input"
    by (simp add: bad_id_world_def bad_id_parse_def)
  have bad: "\<exists>t\<in>set (getElementsByTagName ''NvItem'' bad_id_input).
          py_int (getAttribute t ''id'') = None"
    by (simp add: bad_id_input_def str_defs)
  from read_nv_items_all_or_nothing[OF p1 sample_tags_have_children] sample_read_input
  have l: "length sample_read_items = length (getElementsByTagName ''NvItem'' sample_input)"
    by blast
  from read_nv_items_all_or_nothing[OF p2 bad_id_tags_have_children] bad
  have e: "read_nv_items bad_id_world ''input.xml''
             = Inl (NVAutomationError ''Invalid NV item found'')"
    by blast
  show ?thesis
    using p1 p2 bad l e sample_read_input sample_tags_have_children bad_id_tags_have_children
    by (simp add: list_all_iff)
qed

section \<open>What the trimmer returns\<close>

lemma sample_ids: "read_input_file sample_world sample_self None = Inr [1, 2, 3]"
  using sample_hyps(1)
  by (simp add: read_input_file_def sample_read_items_def NVItem_def)

lemma sample_master_parse: "parse_xml sample_world (definition_file sample_self) = Parsed sample_master"
  by (simp add: sample_world_def sample_parse_def sample_self_def)

lemma sample_create:
  "create_new_definition_file sample_world sample_self =
     (Inr PyNone, write_xml sample_world ''new_definition.xml'' sample_trimmed)"
  unfolding create_new_definition_file_def sample_ids sample_master_parse
  by (simp add: sample_master_def sample_trimmed_def appendChild_def str_defs fresh_ident_def
      sample_writable_all sample_self_def)

text \<open>
  C4. On the sample run \<open>create_new_definition_file\<close> succeeds and writes the
  trimmed file under \<open>new_def_file\<close>, and the value it returns is \<open>None\<close>, not
  that path: the method has no \<open>return\<close> statement, while its docstring says that
  it returns the name of the new file.
\<close>

theorem create_new_definition_file_returns_none:
  "create_new_definition_file sample_world sample_self =
     (Inr PyNone, write_xml sample_world (new_def_file sample_self) sample_trimmed)
   \<and> PyNone \<noteq> PyStr (new_def_file sample_self)"
  unfolding create_new_definition_file_def sample_ids sample_master_parse
  by (simp add: sample_master_def sample_trimmed_def appendChild_def str_defs fresh_ident_def
      sample_writable_all sample_self_def)

lemma nested_ids: "read_input_file nested_world sample_self None = Inr [1, 2, 3]"
  using sample_ids
  by (simp add: read_input_file_def read_nv_items_def nested_world_def nested_parse_def
      sample_world_def sample_self_def)

lemma nested_master_parse: "parse_xml nested_world (definition_file sample_self) = Parsed nested_master"
  by (simp add: nested_world_def nested_parse_def sample_self_def)

lemma nested_writable: "writable nested_world path"
  by (simp add: nested_world_def sample_writable_def)

text \<open>
  With an \<open>NvItem\<close> element inside a \<open>DataType\<close> element, the element moves
  into the new file with the data type, whatever its id: the written file holds the
  item 9 while the input ids are 1, 2 and 3.
\<close>

theorem trimmed_definition_nested_counterexample:
  "read_input_file nested_world sample_self None = Inr [1, 2, 3]
   \<and> parse_xml nested_world (definition_file sample_self) = Parsed nested_master
   \<and> create_new_definition_file nested_world sample_self =
       (Inr PyNone, write_xml nested_world (new_def_file sample_self) nested_trimmed)
   \<and> getElementsByTagName ''NvItem'' nested_trimmed =
       [Element 2 ''NvItem'' [(''id'', ''9'')] [CharacterData 3 ''x'']]
   \<and> py_int (getAttribute (Element 2 ''NvItem'' [(''id'', ''9'')] [CharacterData 3 ''x'']) ''id'')
       = Some 9
   \<and> 9 \<notin> set [1, 2, 3 :: int]"
proof -
  have c: "create_new_definition_file nested_world sample_self =
       (Inr PyNone, write_xml nested_world (new_def_file sample_self) nested_trimmed)"
    unfolding create_new_definition_file_def nested_ids nested_master_parse
    by (simp add: nested_master_def nested_trimmed_def appendChild_def str_defs fresh_ident_def
        nested_writable sample_self_def)
  show ?thesis
    using nested_ids nested_master_parse c
    by (simp add: nested_trimmed_def str_defs)
qed

theorem trimmed_definition_contents_witness:
  "read_input_file sample_world sample_self None = Inr [1, 2, 3]
   \<and> parse_xml sample_world (definition_file sample_self) = Parsed sample_master
   \<and> distinct (idents sample_master)
   \<and> unnested sample_master
   \<and> create_new_definition_file sample_world sample_self =
       (Inr PyNone, write_xml sample_world ''new_definition.xml'' sample_trimmed)
   \<and> parse_xml (write_xml sample_world ''new_definition.xml'' sample_trimmed)
         (new_def_file sample_self) =
           Parsed [Element (fresh_ident sample_master) ''NvDefinition'' []
                     (getElementsByTagName ''DataType'' sample_master
                        @ filter (listed [1, 2, 3]) (getElementsByTagName ''NvItem'' sample_master))]
   \<and> filter (listed [1, 2, 3]) (getElementsByTagName ''NvItem'' sample_master) =
       [Element 3 ''NvItem'' [(''id'', ''1''), (''name'', ''a''), (''calibrated'', ''false'')]
           [CharacterData 4 ''t''],
        Element 5 ''NvItem'' [(''id'', ''2''), (''name'', ''b''), (''calibrated'', ''true'')]
           [CharacterData 6 ''t'']]"
proof -
  have d: "distinct (idents sample_master)" by (simp add: sample_master_def)
  have u: "unnested sample_master" by (simp add: unnested_def sample_master_def)
  have f: "filter (listed [1, 2, 3]) (getElementsByTagName ''NvItem'' sample_master) =
       [Element 3 ''NvItem'' [(''id'', ''1''), (''name'', ''a''), (''calibrated'', ''false'')]
           [CharacterData 4 ''t''],
        Element 5 ''NvItem'' [(''id'', ''2''), (''name'', ''b''), (''calibrated'', ''true'')]
           [CharacterData 6 ''t'']]"
    by (simp add: sample_master_def listed_def str_defs)
  from trimmed_definition_contents[OF sample_ids sample_master_parse d u sample_create]
  have "parse_xml (write_xml sample_world ''new_definition.xml'' sample_trimmed)
         (new_def_file sample_self) =
           Parsed [Element (fresh_ident sample_master) ''NvDefinition'' []
                     (getElementsByTagName ''DataType'' sample_master
                        @ filter (listed [1, 2, 3]) (getElementsByTagName ''NvItem'' sample_master))]"
    by blast
  with sample_ids sample_master_parse d u sample_create f show ?thesis by simp
qed

end
